theory Spec2Isabelle
  imports Main "HOL-Library.Sublist" "HOL-Library.AList"
begin

section \<open>The continuation-passing mappers of \<^verbatim>\<open>src/cli/quicktype.ts\<close>\<close>

text \<open>
  The source is written in continuation-passing style: a transform \<^verbatim>\<open>f(t, cont)\<close>
  returns nothing and hands its result to \<^verbatim>\<open>cont\<close> when it is ready. A function of
  that style is embedded with an answer type \<open>'r\<close>, the behaviour of the process from
  that point on: \<open>f x cont\<close> is everything that happens once the transform has been
  invoked on \<open>x\<close>, and it contains \<open>cont u\<close> where the callback is fired with \<open>u\<close>.

  \<^verbatim>\<open>
  function mapArrayC<T, U>(array: T[], f: (t: T, cont: Continue<U>) => void,
                           continuation: Continue<U[]>) {
    if (array.length == 0) {
      return continuation([]);
    }
    f(array[0], first => {
      mapArrayC(array.slice(1), f, rest => continuation([first].concat(rest)));
    });
  }
  \<close>
\<close>

fun mapArrayC :: "'t list \<Rightarrow> ('t \<Rightarrow> ('u \<Rightarrow> 'r) \<Rightarrow> 'r) \<Rightarrow> ('u list \<Rightarrow> 'r) \<Rightarrow> 'r" where
  "mapArrayC [] f continuation = continuation []"
| "mapArrayC (t # array) f continuation =
     f t (\<lambda>first. mapArrayC array f (\<lambda>rest. continuation ([first] @ rest)))"


text \<open>
  \<^verbatim>\<open>
  function mapObjectValuesC(obj: object, f: (t: any, cont: Continue<any>) => void,
                            continuation: Continue<any>) {
    let keys = Object.keys(obj);
    let resultObject = {};
    mapArrayC(keys, (key, arrayContinuation) => {
      let value = obj[key];
      f(value, newValue => {
        resultObject[key] = newValue;
        arrayContinuation(null);
      });
    }, () => {
      continuation(resultObject);
    });
  }
  \<close>
  An object is the list of its own properties in enumeration order, which is the order
  of \<^verbatim>\<open>Object.keys\<close>; its keys are distinct. Reading \<^verbatim>\<open>obj[key]\<close> is a lookup and
  the assignment \<^verbatim>\<open>resultObject[key] = newValue\<close> overwrites the property in place or
  appends a new one, for every key but one: on an object created by \<^verbatim>\<open>{}\<close> the
  assignment at the key \<^verbatim>\<open>__proto__\<close> calls the setter inherited from
  \<^verbatim>\<open>Object.prototype\<close>, which creates no own property (it replaces the prototype when
  the value is an object and does nothing otherwise). An object can have an own
  property of that name all the same (\<^verbatim>\<open>JSON.parse\<close> creates one), and then
  \<^verbatim>\<open>Object.keys\<close> lists it and \<^verbatim>\<open>obj[key]\<close> reads it. The prototype link itself is
  not represented: nothing here reads an inherited property of such an object.

  The local \<^verbatim>\<open>resultObject\<close> is mutated by the callbacks. It is passed explicitly: the
  answer type of the inner \<open>mapArrayC\<close> is a function of the current contents of
  \<^verbatim>\<open>resultObject\<close>, and each callback continues with the updated contents. The keys
  are handled one after the other, so for a transform that fires its callback at most
  once the contents at the moment the callback fires are the contents at the moment
  the transform was invoked. A key taken from \<^verbatim>\<open>Object.keys(obj)\<close> names a property of
  \<open>obj\<close>, so the lookup of \<^verbatim>\<open>obj[key]\<close> always finds a value.
\<close>

type_synonym 'v object = "(string \<times> 'v) list"

definition Object_keys :: "'v object \<Rightarrow> string list" where
  "Object_keys obj = map fst obj"

definition get_property :: "'v object \<Rightarrow> string \<Rightarrow> 'v option" where
  "get_property obj key = map_of obj key"

definition set_property :: "'v object \<Rightarrow> string \<Rightarrow> 'v \<Rightarrow> 'v object" where
  "set_property obj key v = (if key = ''__proto__'' then obj else AList.update key v obj)"

definition mapObjectValuesC ::
  "'v object \<Rightarrow> ('v \<Rightarrow> ('w \<Rightarrow> 'r) \<Rightarrow> 'r) \<Rightarrow> ('w object \<Rightarrow> 'r) \<Rightarrow> 'r" where
  "mapObjectValuesC obj f continuation =
     (let keys = Object_keys obj;
          resultObject = []
      in mapArrayC keys
           (\<lambda>key arrayContinuation resultObject.
              let v = the (get_property obj key)
              in f v (\<lambda>newValue. arrayContinuation () (set_property resultObject key newValue)))
           (\<lambda>_ resultObject. continuation resultObject)
           resultObject)"

subsection \<open>Observing an asynchronous run\<close>

text \<open>
  The moments of a run, in the order in which the single thread reaches them: a
  transform is invoked on an element, time passes while its work is pending, its
  callback fires with an output, the final continuation receives the results.
\<close>

datatype ('t, 'u) moment =
    Invoked 't
  | Tick
  | Fired 't 'u
  | Delivered "'u list"

fun invocations :: "('t, 'u) moment list \<Rightarrow> 't list" where
  "invocations [] = []"
| "invocations (Invoked t # ms) = t # invocations ms"
| "invocations (Tick # ms) = invocations ms"
| "invocations (Fired t u # ms) = invocations ms"
| "invocations (Delivered us # ms) = invocations ms"

fun firings :: "('t, 'u) moment list \<Rightarrow> ('t \<times> 'u) list" where
  "firings [] = []"
| "firings (Invoked t # ms) = firings ms"
| "firings (Tick # ms) = firings ms"
| "firings (Fired t u # ms) = (t, u) # firings ms"
| "firings (Delivered us # ms) = firings ms"

text \<open>
  The event loop. A turn is what the single thread does without interruption: the
  moments it reaches, and the callbacks it leaves pending, each one being the turn
  that runs when that callback fires. The loop runs a turn, adds the callbacks it
  left to the pending ones, and lets the policy \<open>pick\<close> choose which pending callback
  fires next; the policy is arbitrary, so every order and every timing of completion
  is covered. Several callbacks can be pending at once: a turn that starts two
  transforms leaves two.
\<close>

datatype ('t, 'u) turn =
  Turn (emitted: "('t, 'u) moment list") (scheduled: "('t, 'u) turn list")

fun weight :: "('t, 'u) turn \<Rightarrow> nat" where
  "weight (Turn ms cbs) = Suc (sum_list (map weight cbs))"

function event_loop ::
  "(('t, 'u) turn list \<Rightarrow> nat) \<Rightarrow> ('t, 'u) turn list \<Rightarrow> ('t, 'u) moment list" where
  "event_loop pick queue =
     (if queue = [] then []
      else let i = pick queue mod length queue
           in emitted (queue ! i) @
              event_loop pick (take i queue @ drop (Suc i) queue @ scheduled (queue ! i)))"
  by pat_completeness auto
termination
proof (relation "measure (\<lambda>(pick, queue). sum_list (map weight queue))")
  show "wf (measure (\<lambda>(pick :: ('t, 'u) turn list \<Rightarrow> nat, queue). sum_list (map weight queue)))"
    by simp
next
  fix pick :: "('t, 'u) turn list \<Rightarrow> nat" and queue :: "('t, 'u) turn list" and i
  assume ne: "queue \<noteq> []" and i: "i = pick queue mod length queue"
  then have lt: "i < length queue"
    by simp
  then have "queue = take i queue @ queue ! i # drop (Suc i) queue"
    by (rule id_take_nth_drop)
  then have "sum_list (map weight queue)
      = sum_list (map weight (take i queue)) + weight (queue ! i)
        + sum_list (map weight (drop (Suc i) queue))"
    by (metis add.assoc list.simps(9) map_append sum_list.Cons sum_list.append)
  moreover have "weight (queue ! i) = Suc (sum_list (map weight (scheduled (queue ! i))))"
    by (cases "queue ! i") simp
  ultimately
  show "((pick, take i queue @ drop (Suc i) queue @ scheduled (queue ! i)), (pick, queue))
      \<in> measure (\<lambda>(pick, queue). sum_list (map weight queue))"
    by simp
qed
declare event_loop.simps [simp del]

definition timeline ::
  "(('t, 'u) turn list \<Rightarrow> nat) \<Rightarrow> ('t, 'u) turn \<Rightarrow> ('t, 'u) moment list" where
  "timeline pick first = event_loop pick [first]"

text \<open>
  An asynchronous transform: invoked on \<open>t\<close>, it returns at once and leaves one
  callback pending, which fires with \<open>g t\<close> and then runs the continuation it was
  given; when \<open>fires t\<close> is false the work never completes and no callback is left.
  The final continuation \<open>deliver\<close> records the results it receives. \<open>together\<close> is
  two pieces of work done in the same turn.
\<close>

fun at_firing :: "('t, 'u) moment \<Rightarrow> ('t, 'u) turn \<Rightarrow> ('t, 'u) turn" where
  "at_firing m (Turn ms cbs) = Turn (m # ms) cbs"

definition deferred ::
  "('t \<Rightarrow> 'u) \<Rightarrow> ('t \<Rightarrow> bool) \<Rightarrow> 't \<Rightarrow> ('u \<Rightarrow> ('t, 'u) turn) \<Rightarrow> ('t, 'u) turn" where
  "deferred g fires t cont =
     Turn [Invoked t] (if fires t then [at_firing (Fired t (g t)) (cont (g t))] else [])"

definition deliver :: "'u list \<Rightarrow> ('t, 'u) turn" where
  "deliver us = Turn [Delivered us] []"

fun together :: "('t, 'u) turn \<Rightarrow> ('t, 'u) turn \<Rightarrow> ('t, 'u) turn" where
  "together (Turn ms cbs) (Turn ns dbs) = Turn (ms @ ns) (cbs @ dbs)"

text \<open>The moments of one transform that completes.\<close>

definition served :: "('t \<Rightarrow> 'u) \<Rightarrow> 't \<Rightarrow> ('t, 'u) moment list" where
  "served g t = [Invoked t, Fired t (g t)]"

section \<open>The command line front end\<close>

subsection \<open>Options, renderers and the engine\<close>

text \<open>
  A string-typed option of \<^verbatim>\<open>command-line-args\<close> is absent (\<^verbatim>\<open>undefined\<close>), given
  without a value (\<^verbatim>\<open>null\<close>) or a string. The source tests such values for
  truthiness (\<^verbatim>\<open>options.out\<close>, \<^verbatim>\<open>options["lang"] || ...\<close>): only a non-empty string is
  truthy. Template literals and property keys convert them with \<^verbatim>\<open>ToString\<close>.
\<close>

datatype jsstring = Undefined | Null | Str string

fun truthy :: "jsstring \<Rightarrow> bool" where
  "truthy (Str s) = (s \<noteq> [])"
| "truthy Undefined = False"
| "truthy Null = False"

fun toString :: "jsstring \<Rightarrow> string" where
  "toString (Str s) = s"
| "toString Undefined = ''undefined''"
| "toString Null = ''null''"

text \<open>
  The parsed options (\<^verbatim>\<open>const options = commandLineArgs(optionDefinitions)\<close>). The
  positional list \<^verbatim>\<open>src\<close> is absent when no source is given, which is why \<^verbatim>\<open>main\<close>
  assigns \<^verbatim>\<open>options.src = options.src || []\<close>.
\<close>

record options =
  out :: jsstring
  top_level :: jsstring
  lang :: jsstring
  src_lang :: jsstring
  src :: "string list option"
  urls_from :: jsstring
  help_flag :: bool

record renderer =
  extension :: string
  aceMode :: string
  name :: string

text \<open>The two-variant outcome of the engine (a PureScript \<^verbatim>\<open>Either\<close>).\<close>

datatype either = Left string | Right string

datatype pipeline = RenderFromJsonArrayMap | RenderFromJsonSchemaArrayMap

text \<open>
  What the lookup \<^verbatim>\<open>{ "json": ..., "schema": ... }[options["src-lang"]]\<close> can find: an
  entry point of the engine, or a member that the literal inherits from
  \<^verbatim>\<open>Object.prototype\<close>.
\<close>

datatype member = Entry pipeline | Inherited string

datatype error = TypeError | SyntaxError | SystemError

datatype origin = Stdin | File string | Url string

text \<open>
  What the process does, in order. \<open>Consume\<close> is a stream piped into the JSON
  parser; \<open>Abandoned\<close> marks a source whose continuation is never invoked (the request
  is rejected, or the stream or the parser fails or never ends); \<open>Pipeline\<close> is a call
  of an engine entry point with its input and its outcome; \<open>CallInherited\<close> is the call
  \<^verbatim>\<open>pipeline(input)\<close> when the pipeline is a member inherited from
  \<^verbatim>\<open>Object.prototype\<close>; \<open>WriteFileSync\<close> and \<open>StdoutWrite\<close> are the calls of
  \<^verbatim>\<open>fs.writeFileSync\<close> and \<^verbatim>\<open>process.stdout.write\<close> with their arguments;
  \<open>Uncaught\<close> is an exception that nothing catches, which ends the process.
\<close>

datatype 'j event =
    ConsoleError string
  | ConsoleLog string
  | Exit nat
  | Uncaught error
  | ReadFileSync string
  | ExistsSync string
  | CreateReadStream string
  | Fetch string
  | Consume origin
  | Abandoned origin
  | Pipeline pipeline "'j list object" renderer either
  | CallInherited string
  | WriteFileSync string jsstring
  | StdoutWrite jsstring

text \<open>
  Everything the file takes from outside: the engine (\<^verbatim>\<open>Main\<close>), the file system, the
  network, standard input and the modules \<^verbatim>\<open>path\<close> and \<^verbatim>\<open>command-line-usage\<close>.
  \<open>delivered\<close> is the JSON value that \<^verbatim>\<open>parseJsonFromStream\<close> hands to its
  continuation when the stream of an origin ends.
\<close>

record 'j env =
  renderers :: "renderer list"
  engine :: "pipeline \<Rightarrow> 'j list object \<Rightarrow> renderer \<Rightarrow> either"
  urlsFromJsonGrammar :: "'j \<Rightarrow> string + string list object"
  existsSync :: "string \<Rightarrow> bool"
  fetch_resolves :: "string \<Rightarrow> bool"
  delivered :: "origin \<Rightarrow> 'j option"
  readFileSync :: "string \<Rightarrow> string option"
  JSON_parse :: "string \<Rightarrow> 'j option"
  extname :: "string \<Rightarrow> string"
  basename :: "string \<Rightarrow> string"
  getUsage :: string

subsection \<open>Rendering\<close>

text \<open>
  \<^verbatim>\<open>
  function getRenderer() {
    let renderer = Main.renderers.find((r) => {
      return [r.extension, r.aceMode, r.name].indexOf(options.lang) !== -1;
    });
    if (!renderer) {
      console.error(`'${options.lang}' is not yet supported as an output language.`);
      process.exit(1);
    }
    return renderer;
  }
  \<close>
  A function that can end the process returns \<open>Inl\<close> of its last events.
\<close>

definition matches :: "jsstring \<Rightarrow> renderer \<Rightarrow> bool" where
  "matches l r = (l \<in> set [Str (extension r), Str (aceMode r), Str (name r)])"

definition getRenderer :: "'j env \<Rightarrow> options \<Rightarrow> 'j event list + renderer" where
  "getRenderer env options =
     (case find (matches (lang options)) (renderers env) of
        None \<Rightarrow>
          Inl [ConsoleError ([CHR 0x27] @ toString (lang options) @ [CHR 0x27]
                 @ '' is not yet supported as an output language.''),
               Exit 1]
      | Some r \<Rightarrow> Inr r)"

text \<open>
  \<^verbatim>\<open>
  function fromRight(either) {
    let { constructor: { name }, value0: result } = either;
    if (name == "Left") { console.error(result); process.exit(1); }
    else { return result; }
  }
  \<close>
\<close>

fun fromRight :: "either \<Rightarrow> 'j event list + string" where
  "fromRight (Left result) = Inl [ConsoleError result, Exit 1]"
| "fromRight (Right result) = Inr result"

text \<open>
  \<^verbatim>\<open>
  function renderFromJsonArrayMap(jsonArrayMap: JsonArrayMap) {
      let pipeline = { "json": Main.renderFromJsonArrayMap,
                       "schema": Main.renderFromJsonSchemaArrayMap }[options["src-lang"]];
      if (!pipeline) {
        console.error(`Input language '${options["src-lang"]}' is not supported.`);
        process.exit(1);
      }
      let input = { input: jsonArrayMap, renderer: getRenderer() };
      return fromRight(pipeline(input));
  }
  \<close>
  The lookup finds the two own properties of the literal and the twelve members
  that every object inherits from \<^verbatim>\<open>Object.prototype\<close>; all of them are truthy, so
  an inherited name passes the guard. The input is built next, which calls
  \<open>getRenderer\<close>, and then the pipeline is called. An inherited member is called
  without a receiver: \<^verbatim>\<open>constructor\<close> returns the input and \<^verbatim>\<open>toString\<close> returns a
  string, neither of which has a constructor named \<^verbatim>\<open>Left\<close> or a field \<^verbatim>\<open>value0\<close>, so
  that \<open>fromRight\<close> returns \<^verbatim>\<open>undefined\<close>; each of the others throws a \<^verbatim>\<open>TypeError\<close>
  (it needs a receiver, or it is not a function). The result is the events of the
  call and the output, \<open>None\<close> when the process ended.
\<close>

definition object_prototype_names :: "string list" where
  "object_prototype_names =
     [''constructor'', ''__defineGetter__'', ''__defineSetter__'', ''hasOwnProperty'',
      ''__lookupGetter__'', ''__lookupSetter__'', ''isPrototypeOf'', ''propertyIsEnumerable'',
      ''toString'', ''valueOf'', ''__proto__'', ''toLocaleString'']"

definition lookup_pipeline :: "jsstring \<Rightarrow> member option" where
  "lookup_pipeline s =
     (if toString s = ''json'' then Some (Entry RenderFromJsonArrayMap)
      else if toString s = ''schema'' then Some (Entry RenderFromJsonSchemaArrayMap)
      else if toString s \<in> set object_prototype_names then Some (Inherited (toString s))
      else None)"

definition renderFromJsonArrayMap ::
  "'j env \<Rightarrow> options \<Rightarrow> 'j list object \<Rightarrow> 'j event list \<times> jsstring option" where
  "renderFromJsonArrayMap env options jsonArrayMap =
     (case lookup_pipeline (src_lang options) of
        None \<Rightarrow>
          ([ConsoleError (''Input language '' @ [CHR 0x27] @ toString (src_lang options)
              @ [CHR 0x27] @ '' is not supported.''),
            Exit 1], None)
      | Some pipeline \<Rightarrow>
          (case getRenderer env options of
             Inl evs \<Rightarrow> (evs, None)
           | Inr r \<Rightarrow>
               (case pipeline of
                  Entry p \<Rightarrow>
                    (let outcome = engine env p jsonArrayMap r
                     in case fromRight outcome of
                          Inl evs \<Rightarrow> (Pipeline p jsonArrayMap r outcome # evs, None)
                        | Inr output \<Rightarrow> ([Pipeline p jsonArrayMap r outcome], Some (Str output)))
                | Inherited n \<Rightarrow>
                    (if n = ''constructor'' \<or> n = ''toString''
                     then ([CallInherited n], Some Undefined)
                     else ([CallInherited n, Uncaught TypeError], None)))))"

text \<open>
  \<^verbatim>\<open>
  function renderAndOutput(jsonArrayMap: JsonArrayMap) {
    let output = renderFromJsonArrayMap(jsonArrayMap);
    if (options.out) { fs.writeFileSync(options.out, output); }
    else { process.stdout.write(output); }
  }
  function workFromJsonArray(jsonArray: object[]) {
    let jsonArrayMap = {};
    jsonArrayMap[options["top-level"]] = jsonArray;
    renderAndOutput(jsonArrayMap);
  }
  \<close>
\<close>

definition renderAndOutput :: "'j env \<Rightarrow> options \<Rightarrow> 'j list object \<Rightarrow> 'j event list" where
  "renderAndOutput env options jsonArrayMap =
     (case renderFromJsonArrayMap env options jsonArrayMap of
        (evs, None) \<Rightarrow> evs
      | (evs, Some output) \<Rightarrow>
          evs @ [if truthy (out options) then WriteFileSync (toString (out options)) output
                 else StdoutWrite output])"

definition workFromJsonArray :: "'j env \<Rightarrow> options \<Rightarrow> 'j list \<Rightarrow> 'j event list" where
  "workFromJsonArray env options jsonArray =
     (let jsonArrayMap = set_property [] (toString (top_level options)) jsonArray
      in renderAndOutput env options jsonArrayMap)"


subsection \<open>Reading the sources\<close>

text \<open>
  \<^verbatim>\<open>
  function parseJsonFromStream(stream, continueWithJson: Continue<object>) {
    let source = makeSource();
    let assembler = new Assembler();
    source.output.on("data", chunk => { ... });
    source.output.on("end", () => { continueWithJson(assembler.current); });
    stream.setEncoding('utf8'); stream.pipe(source.input); stream.resume();
  }
  function parseFileOrUrl(fileOrUrl: string, continueWithJson: Continue<object>) {
    if (fs.existsSync(fileOrUrl)) {
      parseJsonFromStream(fs.createReadStream(fileOrUrl), continueWithJson);
    } else {
      fetch(fileOrUrl).then(res => parseJsonFromStream(res.body, continueWithJson));
    }
  }
  function parseFileOrUrlArray(filesOrUrls: string[], continuation) {
    mapArrayC(filesOrUrls, parseFileOrUrl, continuation);
  }
  function usage() { console.log(getUsage(sections)); }
  \<close>
\<close>

definition parseJsonFromStream ::
  "'j env \<Rightarrow> origin \<Rightarrow> ('j \<Rightarrow> 'j event list) \<Rightarrow> 'j event list" where
  "parseJsonFromStream env stream continueWithJson =
     Consume stream #
     (case delivered env stream of
        None \<Rightarrow> [Abandoned stream]
      | Some json \<Rightarrow> continueWithJson json)"

definition parseFileOrUrl ::
  "'j env \<Rightarrow> string \<Rightarrow> ('j \<Rightarrow> 'j event list) \<Rightarrow> 'j event list" where
  "parseFileOrUrl env fileOrUrl continueWithJson =
     ExistsSync fileOrUrl #
     (if existsSync env fileOrUrl
      then CreateReadStream fileOrUrl # parseJsonFromStream env (File fileOrUrl) continueWithJson
      else Fetch fileOrUrl #
           (if fetch_resolves env fileOrUrl
            then parseJsonFromStream env (Url fileOrUrl) continueWithJson
            else [Abandoned (Url fileOrUrl)]))"

definition parseFileOrUrlArray ::
  "'j env \<Rightarrow> string list \<Rightarrow> ('j list \<Rightarrow> 'j event list) \<Rightarrow> 'j event list" where
  "parseFileOrUrlArray env filesOrUrls continuation =
     mapArrayC filesOrUrls (parseFileOrUrl env) continuation"

definition usage :: "'j env \<Rightarrow> 'j event list" where
  "usage env = [ConsoleLog (getUsage env)]"

subsection \<open>Inferring the language and the top-level name\<close>

text \<open>
  \<^verbatim>\<open>String.prototype.replace\<close> with a string pattern replaces the first occurrence of
  the pattern; the empty pattern occurs at the start. (The source only passes the
  replacement \<^verbatim>\<open>""\<close>, which has no \<^verbatim>\<open>$\<close> pattern.)
\<close>

fun replace :: "string \<Rightarrow> string \<Rightarrow> string \<Rightarrow> string" where
  "replace [] pattern replacement = (if pattern = [] then replacement else [])"
| "replace (c # cs) pattern replacement =
     (if prefix pattern (c # cs) then replacement @ drop (length pattern) (c # cs)
      else c # replace cs pattern replacement)"

text \<open>
  \<^verbatim>\<open>
  function inferLang(): string {
    if (options.out) {
      let extension = path.extname(options.out);
      if (extension == "") {
        console.error("Please specify a language (--lang) or an output file extension.");
        process.exit(1);
      }
      return extension.substr(1);
    }
    return "go";
  }
  \<close>
\<close>

definition inferLang :: "'j env \<Rightarrow> options \<Rightarrow> 'j event list + string" where
  "inferLang env options =
     (if truthy (out options) then
        (let extension = extname env (toString (out options))
         in if extension = []
            then Inl [ConsoleError
                        ''Please specify a language (--lang) or an output file extension.'',
                      Exit 1]
            else Inr (drop 1 extension))
      else Inr ''go'')"

text \<open>
  \<^verbatim>\<open>
  function inferTopLevel(): string {
    if (options.out) {
      let extension = path.extname(options.out);
      let without = path.basename(options.out).replace(extension, "");
      return without;
    }
    if (options.src.length == 1) {
      let src = options.src[0];
      let extension = path.extname(src);
      let without = path.basename(src).replace(extension, "");
      return without;
    }
    return "TopLevel";
  }
  \<close>
  Reading \<^verbatim>\<open>options.src.length\<close> while \<^verbatim>\<open>options.src\<close> is \<^verbatim>\<open>undefined\<close> throws a
  \<^verbatim>\<open>TypeError\<close>.
\<close>

definition inferTopLevel :: "'j env \<Rightarrow> options \<Rightarrow> error + string" where
  "inferTopLevel env options =
     (if truthy (out options) then
        (let extension = extname env (toString (out options));
             without = replace (basename env (toString (out options))) extension []
         in Inr without)
      else
        (case src options of
           None \<Rightarrow> Inl TypeError
         | Some [s] \<Rightarrow>
             (let extension = extname env s;
                  without = replace (basename env s) extension []
              in Inr without)
         | Some _ \<Rightarrow> Inr ''TopLevel''))"

subsection \<open>The entry point\<close>

text \<open>
  \<^verbatim>\<open>
  function main(args: string[]) {
    options["lang"] = options["lang"] || inferLang();
    options["top-level"] = options["top-level"] || inferTopLevel();
    options.src = options.src || [];

    if (args.length == 0 || options.help) {
      usage();
    } else if (options["urls-from"]) {
      let json = JSON.parse(fs.readFileSync(options["urls-from"], "utf8"));
      let jsonArrayMapOrError = Main.urlsFromJsonGrammar(json);
      let result = jsonArrayMapOrError.value0;
      if (typeof result == 'string') {
        console.error("Error: " + result);
        process.exit(1);
      } else {
        mapObjectValuesC(result, parseFileOrUrlArray, renderAndOutput);
      }
    } else if (options.src.length == 0) {
      parseJsonFromStream(process.stdin, json => workFromJsonArray([json]));
    } else if (options.src.length == 1) {
      parseFileOrUrlArray(options.src, workFromJsonArray);
    } else {
      usage();
      process.exit(1);
    }
  }
  main(process.argv.slice(2));
  \<close>
  The three assignments are the three steps below; each returns the updated options
  or the events with which the process ends.
\<close>

definition set_lang :: "'j env \<Rightarrow> options \<Rightarrow> 'j event list + options" where
  "set_lang env options =
     (if truthy (lang options) then Inr options
      else case inferLang env options of
             Inl evs \<Rightarrow> Inl evs
           | Inr l \<Rightarrow> Inr (options\<lparr>lang := Str l\<rparr>))"

definition set_top_level :: "'j env \<Rightarrow> options \<Rightarrow> 'j event list + options" where
  "set_top_level env options =
     (if truthy (top_level options) then Inr options
      else case inferTopLevel env options of
             Inl e \<Rightarrow> Inl [Uncaught e]
           | Inr t \<Rightarrow> Inr (options\<lparr>top_level := Str t\<rparr>))"

definition set_src :: "options \<Rightarrow> options" where
  "set_src options =
     (case src options of
        None \<Rightarrow> options\<lparr>src := Some []\<rparr>
      | Some _ \<Rightarrow> options)"

definition dispatch :: "string list \<Rightarrow> options \<Rightarrow> 'j env \<Rightarrow> 'j event list" where
  "dispatch args options env =
     (if length args = 0 \<or> help_flag options then usage env
      else if truthy (urls_from options) then
        ReadFileSync (toString (urls_from options)) #
        (case readFileSync env (toString (urls_from options)) of
           None \<Rightarrow> [Uncaught SystemError]
         | Some text \<Rightarrow>
             (case JSON_parse env text of
                None \<Rightarrow> [Uncaught SyntaxError]
              | Some json \<Rightarrow>
                  (case urlsFromJsonGrammar env json of
                     Inl result \<Rightarrow> [ConsoleError (''Error: '' @ result), Exit 1]
                   | Inr result \<Rightarrow>
                       mapObjectValuesC result (parseFileOrUrlArray env)
                         (renderAndOutput env options))))
      else
        (case src options of
           None \<Rightarrow> [Uncaught TypeError]
         | Some [] \<Rightarrow>
             parseJsonFromStream env Stdin (\<lambda>json. workFromJsonArray env options [json])
         | Some [s] \<Rightarrow> parseFileOrUrlArray env [s] (workFromJsonArray env options)
         | Some _ \<Rightarrow> usage env @ [Exit 1]))"

definition main :: "string list \<Rightarrow> options \<Rightarrow> 'j env \<Rightarrow> 'j event list" where
  "main args options env =
     (case set_lang env options of
        Inl evs \<Rightarrow> evs
      | Inr options1 \<Rightarrow>
          (case set_top_level env options1 of
             Inl evs \<Rightarrow> evs
           | Inr options2 \<Rightarrow> dispatch args (set_src options2) env))"


subsection \<open>What a run does to a source and to the engine\<close>

text \<open>
  The events of \<open>parseFileOrUrl\<close> before its continuation, the origin it reads and
  the JSON value it continues with (\<open>None\<close> when it never continues); and the events
  that call the engine or write the output.
\<close>

definition source_origin :: "'j env \<Rightarrow> string \<Rightarrow> origin" where
  "source_origin env fileOrUrl = (if existsSync env fileOrUrl then File fileOrUrl else Url fileOrUrl)"

definition source_opening :: "'j env \<Rightarrow> string \<Rightarrow> 'j event list" where
  "source_opening env fileOrUrl =
     (if existsSync env fileOrUrl
      then [ExistsSync fileOrUrl, CreateReadStream fileOrUrl, Consume (File fileOrUrl)]
      else if fetch_resolves env fileOrUrl
      then [ExistsSync fileOrUrl, Fetch fileOrUrl, Consume (Url fileOrUrl)]
      else [ExistsSync fileOrUrl, Fetch fileOrUrl])"

definition source_json :: "'j env \<Rightarrow> string \<Rightarrow> 'j option" where
  "source_json env fileOrUrl =
     (if existsSync env fileOrUrl then delivered env (File fileOrUrl)
      else if fetch_resolves env fileOrUrl then delivered env (Url fileOrUrl)
      else None)"

fun render_event :: "'j event \<Rightarrow> bool" where
  "render_event (Pipeline p m r outcome) = True"
| "render_event (WriteFileSync file text) = True"
| "render_event (StdoutWrite text) = True"
| "render_event ev = False"

definition quiet :: "'j event list \<Rightarrow> bool" where
  "quiet evs = list_all (\<lambda>ev. \<not> render_event ev) evs"

subsection \<open>A concrete environment\<close>

text \<open>
  Node's \<^verbatim>\<open>path.basename\<close> and \<^verbatim>\<open>path.extname\<close> on POSIX paths. The base name is
  the last component of the path, trailing separators ignored. The extension runs
  from the last dot of the base name to its end; it is empty when the base name has no
  dot, when its only dot is its first character, and for the base name \<^verbatim>\<open>..\<close>.
\<close>

definition posix_basename :: "string \<Rightarrow> string" where
  "posix_basename p =
     rev (takeWhile (\<lambda>c. c \<noteq> CHR ''/'') (dropWhile (\<lambda>c. c = CHR ''/'') (rev p)))"

definition posix_extname :: "string \<Rightarrow> string" where
  "posix_extname p =
     (let b = posix_basename p;
          after = takeWhile (\<lambda>c. c \<noteq> CHR ''.'') (rev b);
          upto = drop (length after) (rev b)
      in if upto = [] \<or> tl upto = [] \<or> b = ''..'' then []
         else CHR ''.'' # rev after)"

datatype json =
    JNull
  | JBool bool
  | JNumber int
  | JString string
  | JArray "json list"
  | JObject "(string \<times> json) list"

text \<open>
  An engine with three renderers that rejects every schema input, a file system
  with the files \<^verbatim>\<open>user.json\<close> and \<^verbatim>\<open>urls.json\<close>, the latter a grammar that expands to
  the one group \<^verbatim>\<open>User\<close> with the one source \<^verbatim>\<open>user.json\<close>, and \<^verbatim>\<open>{"a": 1}\<close> on
  standard input.
\<close>

definition csharp :: renderer where
  "csharp = \<lparr>extension = ''cs'', aceMode = ''csharp'', name = ''C#''\<rparr>"

definition golang :: renderer where
  "golang = \<lparr>extension = ''go'', aceMode = ''golang'', name = ''Go''\<rparr>"

definition typescript :: renderer where
  "typescript = \<lparr>extension = ''ts'', aceMode = ''typescript'', name = ''TypeScript''\<rparr>"

definition sample :: json where
  "sample = JObject [(''a'', JNumber 1)]"

definition grammar :: json where
  "grammar = JObject [(''User'', JString ''user.json'')]"

definition demo_env :: "json env" where
  "demo_env =
     \<lparr>renderers = [csharp, golang, typescript],
      engine = (\<lambda>p m r. if p = RenderFromJsonSchemaArrayMap then Left ''not a schema''
                         else Right (''// '' @ name r @ '' for '' @ concat (Object_keys m))),
      urlsFromJsonGrammar =
        (\<lambda>j. if j = grammar then Inr [(''User'', [''user.json''])] else Inl ''not a grammar''),
      existsSync = (\<lambda>f. f = ''user.json''),
      fetch_resolves = (\<lambda>u. False),
      delivered = (\<lambda>s. if s = Stdin \<or> s = File ''user.json'' then Some sample else None),
      readFileSync = (\<lambda>f. if f = ''urls.json'' then Some ''User -> user.json'' else None),
      JSON_parse = (\<lambda>t. if t = ''User -> user.json'' then Some grammar else None),
      extname = posix_extname,
      basename = posix_basename,
      getUsage = ''Synopsis''\<rparr>"

definition no_options :: options where
  "no_options =
     \<lparr>out = Undefined, top_level = Undefined, lang = Undefined, src_lang = Str ''json'',
      src = None, urls_from = Undefined, help_flag = False\<rparr>"

text \<open>
  What \<open>parseFileOrUrl\<close> does around its continuation: the behaviour \<open>r\<close> of the
  continuation follows the opening of the source, or never happens.
\<close>

definition proceed :: "'j env \<Rightarrow> string \<Rightarrow> 'j event list \<Rightarrow> 'j event list" where
  "proceed env f r =
     source_opening env f @
     (case source_json env f of None \<Rightarrow> [Abandoned (source_origin env f)] | Some json \<Rightarrow> r)"

text \<open>Command lines used as examples below.\<close>

definition fortran_file :: options where
  "fortran_file = no_options\<lparr>lang := Str ''fortran'', src := Some [''user.json'']\<rparr>"

definition fortran_stdin :: options where
  "fortran_stdin = no_options\<lparr>lang := Str ''fortran'', top_level := Str ''User''\<rparr>"

definition schema_file :: options where
  "schema_file = no_options\<lparr>src_lang := Str ''schema'', src := Some [''user.json'']\<rparr>"

definition named_stdin :: options where
  "named_stdin = no_options\<lparr>top_level := Str ''User''\<rparr>"

definition fortran_grammar :: options where
  "fortran_grammar =
     no_options\<lparr>lang := Str ''fortran'', top_level := Str ''User'', urls_from := Str ''urls.json''\<rparr>"

definition fortran_help :: options where
  "fortran_help = fortran_file\<lparr>help_flag := True\<rparr>"

section \<open>Properties of the mappers\<close>

subsection \<open>The sequential mapper\<close>

lemma mapArrayC_callback_once:
  "mapArrayC xs (\<lambda>t cont. W t (cont (g t))) k = foldr W xs (k (map g xs))"
  by (induction xs arbitrary: k) simp_all


text \<open>
  C1. A transform that fires its callback once with \<open>g t\<close>, after whatever else it does
  (\<open>W t\<close> is arbitrary: it may wait, log, or read a stream first), is
  \<open>\<lambda>t cont. W t (cont (g t))\<close>. For every input sequence, \<open>mapArrayC\<close> then hands the
  final continuation the sequence \<open>map g xs\<close>: one output per input, in the order of the
  inputs, after the transforms have run in that order. On the empty sequence it calls
  the final continuation with the empty sequence at once, whatever the transform is.
\<close>

theorem mapArrayC_results_in_order:
  "mapArrayC xs (\<lambda>t cont. W t (cont (g t))) continuation
     = foldr W xs (continuation (map g xs))
   \<and> mapArrayC [] f continuation = continuation []"
  by (simp add: mapArrayC_callback_once)

theorem mapArrayC_results_in_order_witness:
  "mapArrayC [1, 2, 3 :: int] (\<lambda>t cont. Invoked t # Tick # Fired t (2 * t) # cont (2 * t))
     (\<lambda>us. [Delivered us])
   = [Invoked 1, Tick, Fired 1 2, Invoked 2, Tick, Fired 2 4, Invoked 3, Tick, Fired 3 6,
      Delivered [2, 4, 6]]"
  using mapArrayC_results_in_order
    [of "[1, 2, 3 :: int]" "\<lambda>t r. Invoked t # Tick # Fired t (2 * t) # r" "\<lambda>t. 2 * t"
        "\<lambda>us. [Delivered us]"]
  by simp

subsection \<open>One transform at a time\<close>

lemma invocations_append: "invocations (ms @ ns) = invocations ms @ invocations ns"
  by (induction ms rule: invocations.induct) simp_all

lemma firings_append: "firings (ms @ ns) = firings ms @ firings ns"
  by (induction ms rule: firings.induct) simp_all

lemma event_loop_empty: "event_loop pick [] = []"
  by (subst event_loop.simps) simp

lemma event_loop_single: "event_loop pick [T] = emitted T @ event_loop pick (scheduled T)"
  by (subst event_loop.simps) simp

lemma event_loop_Turn: "event_loop pick [Turn ms cbs] = ms @ event_loop pick cbs"
  by (simp add: event_loop_single)

lemma event_loop_at_firing: "event_loop pick [at_firing m T] = m # event_loop pick [T]"
  by (cases T) (simp add: event_loop_Turn)

lemma event_loop_deliver: "event_loop pick [deliver us] = [Delivered us]"
  by (simp add: event_loop_Turn deliver_def event_loop_empty)

lemma event_loop_deferred:
  "event_loop pick [deferred g fires t cont]
     = (if fires t then served g t @ event_loop pick [cont (g t)] else [Invoked t])"
  by (simp add: event_loop_Turn deferred_def event_loop_at_firing event_loop_empty served_def)

lemma event_loop_mapArrayC:
  "event_loop pick [mapArrayC xs (deferred g fires) k]
     = concat (map (served g) (takeWhile fires xs)) @
       (if dropWhile fires xs = [] then event_loop pick [k (map g xs)]
        else [Invoked (hd (dropWhile fires xs))])"
proof (induction xs arbitrary: k)
  case Nil
  show ?case by simp
next
  case (Cons x xs)
  show ?case
  proof (cases "fires x")
    case True
    then have step: "event_loop pick [mapArrayC (x # xs) (deferred g fires) k]
        = served g x @ event_loop pick [mapArrayC xs (deferred g fires) (\<lambda>rest. k (g x # rest))]"
      by (simp add: event_loop_deferred)
    show ?thesis
      unfolding step Cons.IH using True by simp
  next
    case False
    then show ?thesis
      by (simp add: event_loop_deferred)
  qed
qed

lemma timeline_mapArrayC:
  "timeline pick (mapArrayC xs (deferred g fires) deliver)
     = concat (map (served g) (takeWhile fires xs)) @
       (if dropWhile fires xs = [] then [Delivered (map g xs)]
        else [Invoked (hd (dropWhile fires xs))])"
  unfolding timeline_def event_loop_mapArrayC event_loop_deliver ..

lemma take_1_hd: "ys \<noteq> [] \<Longrightarrow> take (Suc 0) ys = [hd ys]"
  by (cases ys) simp_all

lemma invocations_served: "invocations (concat (map (served g) ts)) = ts"
  by (induction ts) (simp_all add: served_def)

lemma firings_served: "firings (concat (map (served g) ts)) = map (\<lambda>t. (t, g t)) ts"
  by (induction ts) (simp_all add: served_def)

lemma invocations_take_le:
  "length (invocations (take n ms)) \<le> length (invocations ms)"
proof -
  have "invocations ms = invocations (take n ms) @ invocations (drop n ms)"
    by (metis append_take_drop_id invocations_append)
  then show ?thesis by simp
qed

lemma one_outstanding:
  "length (invocations rest) \<le> 1 \<Longrightarrow>
   length (invocations (take n (concat (map (served g) ts) @ rest)))
     \<le> Suc (length (firings (take n (concat (map (served g) ts) @ rest))))"
proof (induction ts arbitrary: n)
  case Nil
  with invocations_take_le [of n rest] show ?case by simp
next
  case (Cons t ts)
  let ?tl = "concat (map (served g) ts) @ rest"
  have whole: "concat (map (served g) (t # ts)) @ rest = Invoked t # Fired t (g t) # ?tl"
    by (simp add: served_def)
  show ?case
  proof (cases n)
    case 0
    then show ?thesis by simp
  next
    case (Suc m)
    note n = this
    show ?thesis
    proof (cases m)
      case 0
      with n show ?thesis unfolding whole by simp
    next
      case (Suc l)
      with n Cons.IH [OF Cons.prems, of l] show ?thesis unfolding whole by simp
    qed
  qed
qed

text \<open>
  C2. In every run of \<open>mapArrayC\<close> over asynchronous transforms on the event loop,
  whatever the order in which the loop lets pending callbacks fire and whichever
  transforms complete: the transform is invoked on the elements in input order, up
  to and including the first element whose callback never fires and on no element
  after it; the callbacks fire in input order; and at every moment \<open>n\<close> of the run,
  if the transform of element \<open>i + 1\<close> has been invoked (the first \<open>n\<close> moments hold
  more than \<open>i + 1\<close> invocations), then the callback of element \<open>i\<close> has fired (they
  hold more than \<open>i\<close> firings). The transform of an element is invoked only after
  the callback of the element before it has fired.
\<close>

theorem mapArrayC_one_at_a_time:
  "invocations (timeline pick (mapArrayC xs (deferred g fires) deliver))
     = takeWhile fires xs @ take 1 (dropWhile fires xs)
   \<and> firings (timeline pick (mapArrayC xs (deferred g fires) deliver))
     = map (\<lambda>t. (t, g t)) (takeWhile fires xs)
   \<and> (\<forall>n i. Suc i < length (invocations (take n (timeline pick
                  (mapArrayC xs (deferred g fires) deliver))))
        \<longrightarrow> i < length (firings (take n (timeline pick
                  (mapArrayC xs (deferred g fires) deliver)))))"
proof (intro conjI allI impI)
  show "invocations (timeline pick (mapArrayC xs (deferred g fires) deliver))
     = takeWhile fires xs @ take 1 (dropWhile fires xs)"
    by (simp add: timeline_mapArrayC invocations_append invocations_served take_1_hd
          del: dropWhile_eq_Nil_conv)
  show "firings (timeline pick (mapArrayC xs (deferred g fires) deliver))
     = map (\<lambda>t. (t, g t)) (takeWhile fires xs)"
    by (simp add: timeline_mapArrayC firings_append firings_served del: dropWhile_eq_Nil_conv)
next
  fix n i
  let ?rest = "if dropWhile fires xs = [] then [Delivered (map g xs)]
               else [Invoked (hd (dropWhile fires xs))]"
  assume a: "Suc i < length (invocations (take n (timeline pick
                  (mapArrayC xs (deferred g fires) deliver))))"
  have "length (invocations ?rest) \<le> 1"
    by simp
  from one_outstanding [OF this, of n g "takeWhile fires xs"] a
  show "i < length (firings (take n (timeline pick (mapArrayC xs (deferred g fires) deliver))))"
    by (simp add: timeline_mapArrayC)
qed

theorem mapArrayC_one_at_a_time_witness:
  "Suc 0 < length (invocations (take 3 (timeline (\<lambda>queue. 0)
       (mapArrayC [10, 20, 30 :: nat] (deferred (\<lambda>t. 2 * t) (\<lambda>t. t \<noteq> 20)) deliver))))
   \<and> 0 < length (firings (take 3 (timeline (\<lambda>queue. 0)
       (mapArrayC [10, 20, 30 :: nat] (deferred (\<lambda>t. 2 * t) (\<lambda>t. t \<noteq> 20)) deliver))))
   \<and> invocations (timeline (\<lambda>queue. 0)
       (mapArrayC [10, 20, 30 :: nat] (deferred (\<lambda>t. 2 * t) (\<lambda>t. t \<noteq> 20)) deliver)) = [10, 20]"
proof -
  let ?run = "timeline (\<lambda>queue. 0)
       (mapArrayC [10, 20, 30 :: nat] (deferred (\<lambda>t. 2 * t) (\<lambda>t. t \<noteq> 20)) deliver)"
  note claim = mapArrayC_one_at_a_time
    [of "\<lambda>queue. 0" "[10, 20, 30 :: nat]" "\<lambda>t. 2 * t" "\<lambda>t. t \<noteq> 20"]
  have "?run = [Invoked 10, Fired 10 20, Invoked 20]"
    by (subst timeline_mapArrayC) (simp add: served_def)
  then have h: "Suc 0 < length (invocations (take 3 ?run))"
    by simp
  from claim have "\<forall>n i. Suc i < length (invocations (take n ?run))
      \<longrightarrow> i < length (firings (take n ?run))"
    by blast
  with h have f: "0 < length (firings (take 3 ?run))"
    by blast
  from claim have "invocations ?run
      = takeWhile (\<lambda>t. t \<noteq> 20) [10, 20, 30 :: nat] @ take 1 (dropWhile (\<lambda>t. t \<noteq> 20) [10, 20, 30])"
    by blast
  then have "invocations ?run = [10, 20]"
    by simp
  with h f show ?thesis by blast
qed


text \<open>
  The event loop does not impose that order by itself: a turn that starts two
  transforms has both of them invoked before either callback fires, and the policy
  decides which one fires first.
\<close>

lemma started_together_overlap:
  "timeline (\<lambda>queue. 0)
     (together (deferred (\<lambda>t. 2 * t) (\<lambda>t. True) (1 :: nat) (\<lambda>u. deliver [u]))
               (deferred (\<lambda>t. 2 * t) (\<lambda>t. True) 2 (\<lambda>u. deliver [u])))
   = [Invoked 1, Invoked 2, Fired 1 2, Delivered [2], Fired 2 4, Delivered [4]]
   \<and> timeline (\<lambda>queue. 1)
     (together (deferred (\<lambda>t. 2 * t) (\<lambda>t. True) (1 :: nat) (\<lambda>u. deliver [u]))
               (deferred (\<lambda>t. 2 * t) (\<lambda>t. True) 2 (\<lambda>u. deliver [u])))
   = [Invoked 1, Invoked 2, Fired 2 4, Delivered [4], Fired 1 2, Delivered [2]]"
  by (simp add: timeline_def deferred_def deliver_def event_loop.simps [of _ "_ # _"]
        event_loop_empty)

subsection \<open>The mapper over the values of an object\<close>

lemma mapArrayC_threaded:
  "mapArrayC ks (\<lambda>key cont s. V key (cont (h key) (step key s))) K s
     = foldr V ks (K (map h ks) (fold step ks s))"
  by (induction ks arbitrary: K s) simp_all

lemma update_fresh: "key \<notin> fst ` set al \<Longrightarrow> AList.update key v al = al @ [(key, v)]"
  by (induction al) auto

lemma set_property_fresh:
  "key \<noteq> ''__proto__'' \<Longrightarrow> key \<notin> fst ` set obj \<Longrightarrow> set_property obj key v = obj @ [(key, v)]"
  by (simp add: set_property_def update_fresh)

lemma fold_set_property:
  "distinct (map fst (done @ todo)) \<Longrightarrow> ''__proto__'' \<notin> fst ` set todo \<Longrightarrow>
   fold (\<lambda>key res. set_property res key (G key)) (map fst todo) (map (\<lambda>(key, v). (key, G key)) done)
     = map (\<lambda>(key, v). (key, G key)) (done @ todo)"
proof (induction todo arbitrary: "done")
  case Nil
  then show ?case by simp
next
  case (Cons p todo)
  obtain key v where p: "p = (key, v)" by (cases p)
  from Cons.prems p have fresh: "key \<notin> fst ` set (map (\<lambda>(key, v). (key, G key)) done)"
    by (auto simp: image_iff)
  from Cons.prems(2) p have ordinary: "key \<noteq> ''__proto__''"
    by auto
  have step: "set_property (map (\<lambda>(key, v). (key, G key)) done) key (G key)
      = map (\<lambda>(key, v). (key, G key)) (done @ [p])"
    using set_property_fresh [OF ordinary fresh] p by simp
  from Cons.prems have "distinct (map fst ((done @ [p]) @ todo))"
    by simp
  moreover from Cons.prems(2) have "''__proto__'' \<notin> fst ` set todo"
    by auto
  ultimately show ?case
    using Cons.IH [of "done @ [p]"] step p by simp
qed

lemma lookup_own: "distinct (map fst obj) \<Longrightarrow> (key, v) \<in> set obj \<Longrightarrow> get_property obj key = Some v"
  by (simp add: get_property_def)

lemma map_values_cong:
  "distinct (map fst obj) \<Longrightarrow>
   map (\<lambda>(key, v). (key, g (the (get_property obj key)))) obj = map (\<lambda>(key, v). (key, g v)) obj"
  by (rule map_cong) (auto simp: lookup_own)

lemma own_values: "distinct (map fst obj) \<Longrightarrow> map (\<lambda>key. the (get_property obj key)) (map fst obj) = map snd obj"
  by (auto simp: lookup_own)

lemma foldr_map_arg: "foldr (\<lambda>key. W (val key)) ks r = foldr W (map val ks) r"
  by (induction ks) simp_all

lemma mapObjectValuesC_explicit:
  assumes "distinct (Object_keys obj)" and "''__proto__'' \<notin> set (Object_keys obj)"
  shows "mapObjectValuesC obj (\<lambda>v cont. W v (cont (g v))) continuation
           = foldr W (map snd obj) (continuation (map (\<lambda>(key, v). (key, g v)) obj))"
proof -
  let ?val = "\<lambda>key. the (get_property obj key)"
  let ?G = "\<lambda>key. g (?val key)"
  from assms have d: "distinct (map fst obj)" and o: "''__proto__'' \<notin> fst ` set obj"
    by (simp_all add: Object_keys_def)
  have "mapObjectValuesC obj (\<lambda>v cont. W v (cont (g v))) continuation
      = mapArrayC (map fst obj)
          (\<lambda>key cont s. W (?val key) (cont () (set_property s key (?G key))))
          (\<lambda>_ res. continuation res) []"
    by (simp add: mapObjectValuesC_def Object_keys_def Let_def)
  also have "\<dots> = foldr (\<lambda>key. W (?val key)) (map fst obj)
                     (continuation (fold (\<lambda>key res. set_property res key (?G key)) (map fst obj) []))"
    using mapArrayC_threaded [of "map fst obj" "\<lambda>key. W (?val key)" "\<lambda>_. ()"
            "\<lambda>key res. set_property res key (?G key)" "\<lambda>_ res. continuation res" "[]"]
    by simp
  also have "fold (\<lambda>key res. set_property res key (?G key)) (map fst obj) []
      = map (\<lambda>(key, v). (key, ?G key)) obj"
    using fold_set_property [of "[]" obj ?G] d o by simp
  also have "map (\<lambda>(key, v). (key, ?G key)) obj = map (\<lambda>(key, v). (key, g v)) obj"
    using d by (rule map_values_cong)
  also have "foldr (\<lambda>key. W (?val key)) (map fst obj) = foldr W (map snd obj)"
  proof
    fix r
    have "foldr (\<lambda>key. W (?val key)) (map fst obj) r = foldr W (map ?val (map fst obj)) r"
      by (rule foldr_map_arg)
    then show "foldr (\<lambda>key. W (?val key)) (map fst obj) r = foldr W (map snd obj) r"
      by (simp only: own_values [OF d])
  qed
  finally show ?thesis .
qed


text \<open>
  C3, amended. For every object none of whose keys is \<^verbatim>\<open>__proto__\<close> (its keys are
  distinct) and every transform that fires its callback once with \<open>g v\<close>,
  \<open>mapObjectValuesC\<close> hands its continuation the object with the same keys in the
  same order, each bound to \<open>g\<close> of the value it had: the key set is the same and only
  the values change. The transforms run on the values in key order.
\<close>

theorem mapObjectValuesC_same_keys:
  assumes "distinct (Object_keys obj)" and "''__proto__'' \<notin> set (Object_keys obj)"
  shows "mapObjectValuesC obj (\<lambda>v cont. W v (cont (g v))) continuation
           = foldr W (map snd obj) (continuation (map (\<lambda>(key, v). (key, g v)) obj))
         \<and> Object_keys (map (\<lambda>(key, v). (key, g v)) obj) = Object_keys obj
         \<and> (\<forall>key. get_property (map (\<lambda>(key, v). (key, g v)) obj) key
                    = map_option g (get_property obj key))"
proof (intro conjI allI)
  show "mapObjectValuesC obj (\<lambda>v cont. W v (cont (g v))) continuation
      = foldr W (map snd obj) (continuation (map (\<lambda>(key, v). (key, g v)) obj))"
    using assms by (rule mapObjectValuesC_explicit)
  show "Object_keys (map (\<lambda>(key, v). (key, g v)) obj) = Object_keys obj"
    by (simp add: Object_keys_def case_prod_unfold comp_def)
next
  fix key
  show "get_property (map (\<lambda>(key, v). (key, g v)) obj) key = map_option g (get_property obj key)"
    unfolding get_property_def by (induction obj) auto
qed

theorem mapObjectValuesC_same_keys_witness:
  "distinct (Object_keys [(''x'', 1 :: int), (''y'', 2)])
   \<and> ''__proto__'' \<notin> set (Object_keys [(''x'', 1 :: int), (''y'', 2)])
   \<and> mapObjectValuesC [(''x'', 1 :: int), (''y'', 2)] (\<lambda>v cont. Invoked v # cont (v + 1))
        (\<lambda>res. [Delivered res])
      = [Invoked 1, Invoked 2, Delivered [(''x'', 2), (''y'', 3)]]"
  using mapObjectValuesC_same_keys
    [of "[(''x'', 1 :: int), (''y'', 2)]" "\<lambda>v r. Invoked v # r" "\<lambda>v. v + 1" "\<lambda>res. [Delivered res]"]
  by (simp add: Object_keys_def)


text \<open>
  As first stated, for every object, the property fails: an own property named
  \<^verbatim>\<open>__proto__\<close> is read and transformed, but the assignment to the result creates no
  property, and the object delivered lacks that key.
\<close>

theorem mapObjectValuesC_proto_counterexample:
  "distinct (Object_keys [(''__proto__'', 1 :: int), (''x'', 2)])
   \<and> mapObjectValuesC [(''__proto__'', 1 :: int), (''x'', 2)] (\<lambda>v cont. Invoked v # cont (v + 1))
        (\<lambda>res. [Delivered res])
      = [Invoked 1, Invoked 2, Delivered [(''x'', 3)]]
   \<and> Object_keys [(''x'', 3 :: int)] \<noteq> Object_keys [(''__proto__'', 1 :: int), (''x'', 2)]"
  by (simp add: mapObjectValuesC_def Object_keys_def get_property_def set_property_def Let_def)

section \<open>Properties of the front end\<close>

subsection \<open>Evaluating a run\<close>

lemmas run_defs =
  main_def set_lang_def set_top_level_def set_src_def dispatch_def usage_def
  inferLang_def inferTopLevel_def parseFileOrUrlArray_def parseFileOrUrl_def
  parseJsonFromStream_def workFromJsonArray_def renderAndOutput_def
  renderFromJsonArrayMap_def getRenderer_def matches_def lookup_pipeline_def
  set_property_def Object_keys_def Let_def

lemmas demo_defs =
  demo_env_def no_options_def csharp_def golang_def typescript_def sample_def
  posix_extname_def posix_basename_def


subsection \<open>The renderer lookup\<close>

lemma getRenderer_Inr: "getRenderer env options = Inr r \<longleftrightarrow> find (matches (lang options)) (renderers env) = Some r"
  by (simp add: getRenderer_def split: option.splits)

lemma getRenderer_accepts:
  "(\<exists>r. getRenderer env options = Inr r) \<longleftrightarrow> (\<exists>r\<in>set (renderers env). matches (lang options) r)"
proof -
  have "(\<exists>r. getRenderer env options = Inr r) \<longleftrightarrow> find (matches (lang options)) (renderers env) \<noteq> None"
    by (auto simp: getRenderer_Inr)
  then show ?thesis
    by (auto simp: find_None_iff)
qed


text \<open>
  C10. \<open>getRenderer\<close> returns a renderer exactly when the selector equals the
  extension, the ace mode or the name of some renderer of the engine; the renderer it
  returns is the first one, in the order of \<^verbatim>\<open>Main.renderers\<close>, that the selector
  matches by one of the three; and when no renderer matches it writes the message to
  standard error and exits with status 1.
\<close>

theorem getRenderer_first_match:
  "(getRenderer env options = Inr r \<longleftrightarrow>
      (\<exists>i<length (renderers env). renderers env ! i = r \<and> matches (lang options) r \<and>
         (\<forall>j<i. \<not> matches (lang options) (renderers env ! j))))
   \<and> ((\<exists>r'. getRenderer env options = Inr r') \<longleftrightarrow>
        (\<exists>r'\<in>set (renderers env). lang options = Str (extension r') \<or>
           lang options = Str (aceMode r') \<or> lang options = Str (name r')))
   \<and> ((\<forall>r'\<in>set (renderers env). \<not> matches (lang options) r') \<longrightarrow>
        getRenderer env options =
          Inl [ConsoleError ([CHR 0x27] @ toString (lang options) @ [CHR 0x27]
                 @ '' is not yet supported as an output language.''), Exit 1])"
proof (intro conjI impI)
  show "getRenderer env options = Inr r \<longleftrightarrow>
      (\<exists>i<length (renderers env). renderers env ! i = r \<and> matches (lang options) r \<and>
         (\<forall>j<i. \<not> matches (lang options) (renderers env ! j)))"
    unfolding getRenderer_Inr find_Some_iff by auto
  show "(\<exists>r'. getRenderer env options = Inr r') \<longleftrightarrow>
        (\<exists>r'\<in>set (renderers env). lang options = Str (extension r') \<or>
           lang options = Str (aceMode r') \<or> lang options = Str (name r'))"
    unfolding getRenderer_accepts by (simp add: matches_def)
next
  assume "\<forall>r'\<in>set (renderers env). \<not> matches (lang options) r'"
  then have "find (matches (lang options)) (renderers env) = None"
    by (simp add: find_None_iff)
  then show "getRenderer env options =
          Inl [ConsoleError ([CHR 0x27] @ toString (lang options) @ [CHR 0x27]
                 @ '' is not yet supported as an output language.''), Exit 1]"
    by (simp add: getRenderer_def)
qed

lemma fortran_unsupported:
  "\<forall>r\<in>set (renderers demo_env). \<not> matches (Str ''fortran'') r"
  by (simp add: demo_defs matches_def)

theorem getRenderer_first_match_witness:
  "getRenderer demo_env (no_options\<lparr>lang := Str ''typescript''\<rparr>) = Inr typescript
   \<and> renderers demo_env ! 2 = typescript
   \<and> matches (Str ''typescript'') typescript
   \<and> \<not> matches (Str ''typescript'') (renderers demo_env ! 0)
   \<and> \<not> matches (Str ''typescript'') (renderers demo_env ! 1)
   \<and> find (matches (Str ''fortran'')) (renderers demo_env) = None
   \<and> getRenderer demo_env (no_options\<lparr>lang := Str ''fortran''\<rparr>)
       = Inl [ConsoleError ([CHR 0x27] @ ''fortran'' @ [CHR 0x27]
                 @ '' is not yet supported as an output language.''), Exit 1]"
proof -
  have a: "renderers demo_env ! 2 = typescript" "matches (Str ''typescript'') typescript"
    "\<not> matches (Str ''typescript'') (renderers demo_env ! 0)"
    "\<not> matches (Str ''typescript'') (renderers demo_env ! 1)"
    by (simp_all add: demo_defs matches_def)
  have "\<exists>i<length (renderers demo_env). renderers demo_env ! i = typescript \<and>
          matches (lang (no_options\<lparr>lang := Str ''typescript''\<rparr>)) typescript \<and>
          (\<forall>j<i. \<not> matches (lang (no_options\<lparr>lang := Str ''typescript''\<rparr>))
                     (renderers demo_env ! j))"
  proof (intro exI [of _ 2] conjI allI impI)
    show "2 < length (renderers demo_env)"
      by (simp add: demo_env_def)
    show "renderers demo_env ! 2 = typescript"
      by (fact a(1))
    show "matches (lang (no_options\<lparr>lang := Str ''typescript''\<rparr>)) typescript"
      using a(2) by simp
  next
    fix j :: nat
    assume "j < 2"
    then have "j = 0 \<or> j = 1" by auto
    with a(3,4)
    show "\<not> matches (lang (no_options\<lparr>lang := Str ''typescript''\<rparr>)) (renderers demo_env ! j)"
      by auto
  qed
  with getRenderer_first_match [of demo_env "no_options\<lparr>lang := Str ''typescript''\<rparr>" typescript]
  have b: "getRenderer demo_env (no_options\<lparr>lang := Str ''typescript''\<rparr>) = Inr typescript"
    by blast
  have n: "\<forall>r'\<in>set (renderers demo_env). \<not> matches (lang (no_options\<lparr>lang := Str ''fortran''\<rparr>)) r'"
    using fortran_unsupported by simp
  from getRenderer_first_match [of demo_env "no_options\<lparr>lang := Str ''fortran''\<rparr>" typescript] n
  have d: "getRenderer demo_env (no_options\<lparr>lang := Str ''fortran''\<rparr>)
       = Inl [ConsoleError ([CHR 0x27] @ ''fortran'' @ [CHR 0x27]
                 @ '' is not yet supported as an output language.''), Exit 1]"
    by simp
  from fortran_unsupported have f: "find (matches (Str ''fortran'')) (renderers demo_env) = None"
    by (simp add: find_None_iff)
  from a b d f show ?thesis by blast
qed

subsection \<open>The three assignments of \<open>main\<close>\<close>

lemma set_lang_given: "truthy (lang options) \<Longrightarrow> set_lang env options = Inr options"
  by (simp add: set_lang_def)

lemma set_lang_fields:
  "set_lang env options = Inr options1 \<Longrightarrow>
   out options1 = out options \<and> top_level options1 = top_level options \<and>
   src_lang options1 = src_lang options \<and> src options1 = src options \<and>
   urls_from options1 = urls_from options \<and> help_flag options1 = help_flag options"
  by (auto simp: set_lang_def split: if_splits sum.splits)

lemma set_top_level_fields:
  "set_top_level env options = Inr options2 \<Longrightarrow>
   out options2 = out options \<and> lang options2 = lang options \<and>
   src_lang options2 = src_lang options \<and> src options2 = src options \<and>
   urls_from options2 = urls_from options \<and> help_flag options2 = help_flag options"
  by (auto simp: set_top_level_def split: if_splits sum.splits)

lemma set_src_fields:
  "out (set_src options) = out options \<and> lang (set_src options) = lang options \<and>
   top_level (set_src options) = top_level options \<and>
   src_lang (set_src options) = src_lang options \<and>
   urls_from (set_src options) = urls_from options \<and>
   help_flag (set_src options) = help_flag options \<and>
   src (set_src options) = Some (case src options of None \<Rightarrow> [] | Some xs \<Rightarrow> xs)"
  by (simp add: set_src_def split: option.splits)

lemma set_lang_succeeds:
  assumes "truthy (lang options) \<or> \<not> truthy (out options)
           \<or> extname env (toString (out options)) \<noteq> []"
  shows "\<exists>options1. set_lang env options = Inr options1"
  using assms by (auto simp: set_lang_def inferLang_def Let_def)

lemma set_top_level_succeeds:
  assumes "truthy (top_level options) \<or> truthy (out options) \<or> src options \<noteq> None"
  shows "\<exists>options2. set_top_level env options = Inr options2"
  using assms
  by (auto simp: set_top_level_def inferTopLevel_def Let_def split: option.splits list.splits)

lemma main_no_source_no_name:
  assumes "src options = None" and "\<not> truthy (out options)" and "\<not> truthy (top_level options)"
  shows "main args options env = [Uncaught TypeError]"
proof -
  from assms(2) obtain options1 where l: "set_lang env options = Inr options1"
    using set_lang_succeeds [of options env] by blast
  note f1 = set_lang_fields [OF l]
  have "set_top_level env options1 = Inl [Uncaught TypeError]"
    using f1 assms by (simp add: set_top_level_def inferTopLevel_def)
  with l show ?thesis
    by (simp add: main_def)
qed

lemma posix_data_json_js:
  "posix_extname ''data.json.js'' = ''.js'' \<and> posix_basename ''data.json.js'' = ''data.json.js''"
  by (simp add: posix_extname_def posix_basename_def Let_def)

lemma set_lang_value:
  "set_lang env options = Inr options1 \<Longrightarrow>
   lang options1 =
     (if truthy (lang options) then lang options
      else if truthy (out options) then Str (drop 1 (extname env (toString (out options))))
      else Str ''go'')"
  by (auto simp: set_lang_def inferLang_def Let_def split: if_splits)

lemma set_top_level_value:
  "set_top_level env options = Inr options2 \<Longrightarrow>
   truthy (top_level options) \<or> truthy (out options) \<or> src options = Some [] \<Longrightarrow>
   top_level options2 =
     (if truthy (top_level options) then top_level options
      else if truthy (out options)
      then Str (replace (basename env (toString (out options)))
                  (extname env (toString (out options))) [])
      else Str ''TopLevel'')"
  by (auto simp: set_top_level_def inferTopLevel_def Let_def split: if_splits)


text \<open>
  C6. Without a target-language flag: with an output destination whose extension is
  a dot followed by \<open>l\<close>, the language becomes \<open>l\<close>; with an output destination
  without an extension, the message is written to standard error and the process
  exits with status 1, and this is all that \<open>main\<close> does; without an output
  destination the language becomes \<^verbatim>\<open>go\<close>.
\<close>

theorem inferLang_from_extension:
  assumes "\<not> truthy (lang options)"
  shows "(truthy (out options) \<and> extname env (toString (out options)) = CHR ''.'' # l \<longrightarrow>
            inferLang env options = Inr l \<and> set_lang env options = Inr (options\<lparr>lang := Str l\<rparr>))
       \<and> (truthy (out options) \<and> extname env (toString (out options)) = [] \<longrightarrow>
            inferLang env options =
              Inl [ConsoleError ''Please specify a language (--lang) or an output file extension.'',
                   Exit 1]
            \<and> main args options env =
              [ConsoleError ''Please specify a language (--lang) or an output file extension.'',
               Exit 1])
       \<and> (\<not> truthy (out options) \<longrightarrow>
            inferLang env options = Inr ''go'' \<and>
            set_lang env options = Inr (options\<lparr>lang := Str ''go''\<rparr>))"
  using assms by (simp add: inferLang_def set_lang_def main_def Let_def)

lemma posix_extname_dot: "posix_extname p = [] \<or> hd (posix_extname p) = CHR ''.''"
  by (simp add: posix_extname_def Let_def)

lemma posix_extname_Foo_cs: "posix_extname ''Foo.cs'' = ''.cs''"
  by (simp add: posix_extname_def posix_basename_def Let_def)

lemma posix_extname_Foo: "posix_extname ''Foo'' = []"
  by (simp add: posix_extname_def posix_basename_def Let_def)

theorem inferLang_from_extension_witness:
  "\<not> truthy (lang no_options)
   \<and> truthy (Str ''Foo.cs'') \<and> posix_extname ''Foo.cs'' = CHR ''.'' # ''cs''
   \<and> set_lang demo_env (no_options\<lparr>out := Str ''Foo.cs''\<rparr>)
       = Inr (no_options\<lparr>out := Str ''Foo.cs'', lang := Str ''cs''\<rparr>)
   \<and> truthy (Str ''Foo'') \<and> posix_extname ''Foo'' = []
   \<and> main [''-o'', ''Foo''] (no_options\<lparr>out := Str ''Foo''\<rparr>) demo_env
       = [ConsoleError ''Please specify a language (--lang) or an output file extension.'',
          Exit 1]
   \<and> \<not> truthy (out no_options)
   \<and> set_lang demo_env no_options = Inr (no_options\<lparr>lang := Str ''go''\<rparr>)"
  using inferLang_from_extension [of "no_options\<lparr>out := Str ''Foo.cs''\<rparr>" demo_env "''cs''" "[]"]
        inferLang_from_extension [of "no_options\<lparr>out := Str ''Foo''\<rparr>" demo_env "[]" "[''-o'', ''Foo'']"]
        inferLang_from_extension [of no_options demo_env "[]" "[]"]
  by (simp add: no_options_def demo_env_def posix_extname_Foo_cs posix_extname_Foo)


text \<open>The output destination \<^verbatim>\<open>Foo.cs\<close> gives the top-level name \<^verbatim>\<open>Foo\<close>.\<close>

lemma inferTopLevel_Foo_cs:
  "inferTopLevel demo_env (no_options\<lparr>out := Str ''Foo.cs''\<rparr>) = Inr ''Foo''"
  by (simp add: inferTopLevel_def no_options_def demo_env_def posix_extname_def
        posix_basename_def Let_def)

text \<open>
  C5. The default top-level name is not always the file name without its extension,
  and the fallback name is not reached when no source is given. With neither an
  output destination, nor a top-level name, nor a source, \<open>inferTopLevel\<close> reads
  \<^verbatim>\<open>options.src.length\<close> before \<open>main\<close> has replaced the absent list by the empty one,
  and the process ends on a \<^verbatim>\<open>TypeError\<close>. And \<^verbatim>\<open>replace\<close> removes the first
  occurrence of the extension in the base name, which need not be the last one: for
  \<^verbatim>\<open>data.json.js\<close> the name is \<^verbatim>\<open>dataon.js\<close>.
\<close>

theorem inferTopLevel_failing_inputs:
  "inferTopLevel demo_env no_options = Inl TypeError
   \<and> extname demo_env ''data.json.js'' = ''.js''
   \<and> basename demo_env ''data.json.js'' = ''data.json.js''
   \<and> inferTopLevel demo_env (no_options\<lparr>out := Str ''data.json.js''\<rparr>) = Inr ''dataon.js''
   \<and> inferTopLevel demo_env (no_options\<lparr>src := Some [''data.json.js'']\<rparr>) = Inr ''dataon.js''"
  by (simp add: inferTopLevel_def no_options_def demo_env_def posix_data_json_js Let_def)

subsection \<open>More than one source\<close>

text \<open>
  C9, amended. For every invocation with more than one positional source, no grammar
  file and no help flag, whose target language is determined (by a flag, by the
  absence of an output destination or by the extension of the output destination),
  \<open>main\<close> prints the usage text and exits with status 1, and does nothing else: no
  source is resolved and nothing is rendered.
\<close>

theorem main_many_sources_usage:
  assumes "src options = Some (s1 # s2 # others)"
      and "\<not> truthy (urls_from options)" and "\<not> help_flag options" and "args \<noteq> []"
      and "truthy (lang options) \<or> \<not> truthy (out options)
           \<or> extname env (toString (out options)) \<noteq> []"
  shows "main args options env = [ConsoleLog (getUsage env), Exit 1]"
proof -
  from set_lang_succeeds [OF assms(5)] obtain options1
    where l: "set_lang env options = Inr options1" by blast
  note f1 = set_lang_fields [OF l]
  from f1 assms(1) have "src options1 \<noteq> None" by simp
  then obtain options2 where t: "set_top_level env options1 = Inr options2"
    using set_top_level_succeeds [of options1 env] by blast
  note f2 = set_top_level_fields [OF t]
  have s: "src (set_src options2) = Some (s1 # s2 # others)"
    using f1 f2 assms(1) by (simp add: set_src_fields)
  have "dispatch args (set_src options2) env = [ConsoleLog (getUsage env), Exit 1]"
    using s f1 f2 assms(2-4) by (simp add: dispatch_def set_src_fields usage_def)
  with l t show ?thesis
    by (simp add: main_def)
qed

theorem main_many_sources_usage_witness:
  "main [''a.json'', ''b.json''] (no_options\<lparr>src := Some [''a.json'', ''b.json'']\<rparr>) demo_env
     = [ConsoleLog (getUsage demo_env), Exit 1]"
  using main_many_sources_usage
    [of "no_options\<lparr>src := Some [''a.json'', ''b.json'']\<rparr>" "''a.json''" "''b.json''" "[]"
        "[''a.json'', ''b.json'']" demo_env]
  by (simp add: no_options_def)


text \<open>
  As first stated, without the condition on the target language, the property fails:
  with an output destination that has no extension and no language flag, the language
  check of \<open>inferLang\<close> comes first and the usage text is never printed.
\<close>

theorem main_many_sources_counterexample:
  "src (no_options\<lparr>out := Str ''out'', src := Some [''a.json'', ''b.json'']\<rparr>)
     = Some [''a.json'', ''b.json'']
   \<and> \<not> truthy (urls_from (no_options\<lparr>out := Str ''out'', src := Some [''a.json'', ''b.json'']\<rparr>))
   \<and> \<not> help_flag (no_options\<lparr>out := Str ''out'', src := Some [''a.json'', ''b.json'']\<rparr>)
   \<and> main [''-o'', ''out'', ''a.json'', ''b.json'']
        (no_options\<lparr>out := Str ''out'', src := Some [''a.json'', ''b.json'']\<rparr>) demo_env
       = [ConsoleError ''Please specify a language (--lang) or an output file extension.'',
          Exit 1]
   \<and> ConsoleLog (getUsage demo_env)
       \<notin> set (main [''-o'', ''out'', ''a.json'', ''b.json'']
                 (no_options\<lparr>out := Str ''out'', src := Some [''a.json'', ''b.json'']\<rparr>) demo_env)"
proof -
  have e: "extname demo_env ''out'' = []"
    by (simp add: demo_env_def posix_extname_def posix_basename_def Let_def)
  have "main [''-o'', ''out'', ''a.json'', ''b.json'']
        (no_options\<lparr>out := Str ''out'', src := Some [''a.json'', ''b.json'']\<rparr>) demo_env
       = [ConsoleError ''Please specify a language (--lang) or an output file extension.'',
          Exit 1]"
    by (simp add: main_def set_lang_def inferLang_def no_options_def e)
  then show ?thesis
    by (simp add: no_options_def)
qed


subsection \<open>The shape of a run\<close>

text \<open>
  Every run of \<open>main\<close> is a sequence of events that neither call the engine nor write
  output, followed by at most one call of \<open>renderAndOutput\<close>.
\<close>

lemma parseFileOrUrl_opening:
  "parseFileOrUrl env f k =
     source_opening env f @
     (case source_json env f of None \<Rightarrow> [Abandoned (source_origin env f)] | Some json \<Rightarrow> k json)"
  by (simp add: parseFileOrUrl_def parseJsonFromStream_def source_opening_def source_json_def
        source_origin_def split: option.splits)

lemma parseFileOrUrl_proceed:
  "parseFileOrUrl env = (\<lambda>f k. proceed env f (k (the (source_json env f))))"
  by (intro ext) (simp add: parseFileOrUrl_opening proceed_def split: option.splits)

lemma parseFileOrUrlArray_foldr:
  "parseFileOrUrlArray env xs k
     = foldr (proceed env) xs (k (map (\<lambda>f. the (source_json env f)) xs))"
  unfolding parseFileOrUrlArray_def parseFileOrUrl_proceed
  using mapArrayC_callback_once [of xs "proceed env" "\<lambda>f. the (source_json env f)" k] by simp

lemma quiet_append: "quiet (a @ b) \<longleftrightarrow> quiet a \<and> quiet b"
  by (simp add: quiet_def)

lemma quiet_source_opening: "quiet (source_opening env f)"
  by (simp add: quiet_def source_opening_def)

lemma proceed_shape:
  "\<exists>pre. quiet pre \<and> ((\<forall>r. proceed env f r = pre @ r) \<or> (\<forall>r. proceed env f r = pre))"
proof (cases "source_json env f")
  case None
  then have "\<forall>r. proceed env f r = source_opening env f @ [Abandoned (source_origin env f)]"
    by (simp add: proceed_def)
  moreover have "quiet (source_opening env f @ [Abandoned (source_origin env f)])"
    by (simp add: quiet_append quiet_source_opening) (simp add: quiet_def)
  ultimately show ?thesis by blast
next
  case (Some j)
  then have "\<forall>r. proceed env f r = source_opening env f @ r"
    by (simp add: proceed_def)
  with quiet_source_opening show ?thesis by blast
qed

lemma foldr_shape:
  assumes "\<And>x. \<exists>pre. quiet pre \<and> ((\<forall>r. F x r = pre @ r) \<or> (\<forall>r. F x r = pre))"
  shows "\<exists>pre. quiet pre \<and> ((\<forall>r. foldr F xs r = pre @ r) \<or> (\<forall>r. foldr F xs r = pre))"
proof (induction xs)
  case Nil
  have "quiet []" by (simp add: quiet_def)
  moreover have "\<forall>r. foldr F [] r = [] @ r" by simp
  ultimately show ?case by blast
next
  case (Cons x xs)
  from assms [of x] obtain p where p: "quiet p"
    and pc: "(\<forall>r. F x r = p @ r) \<or> (\<forall>r. F x r = p)" by blast
  from Cons.IH obtain q where q: "quiet q"
    and qc: "(\<forall>r. foldr F xs r = q @ r) \<or> (\<forall>r. foldr F xs r = q)" by blast
  from pc show ?case
  proof
    assume a: "\<forall>r. F x r = p @ r"
    from qc show ?thesis
    proof
      assume "\<forall>r. foldr F xs r = q @ r"
      with a have "\<forall>r. foldr F (x # xs) r = (p @ q) @ r" by simp
      moreover from p q have "quiet (p @ q)" by (simp add: quiet_append)
      ultimately show ?thesis by blast
    next
      assume "\<forall>r. foldr F xs r = q"
      with a have "\<forall>r. foldr F (x # xs) r = p @ q" by simp
      moreover from p q have "quiet (p @ q)" by (simp add: quiet_append)
      ultimately show ?thesis by blast
    qed
  next
    assume "\<forall>r. F x r = p"
    then have "\<forall>r. foldr F (x # xs) r = p" by simp
    with p show ?thesis by blast
  qed
qed

lemma sources_shape:
  "\<exists>pre. quiet pre \<and>
     ((\<forall>r. foldr (proceed env) xs r = pre @ r) \<or> (\<forall>r. foldr (proceed env) xs r = pre))"
  by (rule foldr_shape) (rule proceed_shape)

lemma parseFileOrUrlArray_shape:
  "\<exists>pre. quiet pre \<and>
     (parseFileOrUrlArray env xs k = pre \<or> (\<exists>js. parseFileOrUrlArray env xs k = pre @ k js))"
  unfolding parseFileOrUrlArray_foldr using sources_shape [of env xs] by metis

lemma mapObjectValuesC_sources:
  "\<exists>res. mapObjectValuesC obj (parseFileOrUrlArray env) K
     = foldr (\<lambda>key. foldr (proceed env) (the (get_property obj key))) (Object_keys obj) (K res)"
proof -
  let ?val = "\<lambda>key. the (get_property obj key)"
  let ?G = "\<lambda>key. map (\<lambda>f. the (source_json env f)) (?val key)"
  have "mapObjectValuesC obj (parseFileOrUrlArray env) K
      = mapArrayC (Object_keys obj)
          (\<lambda>key cont s. foldr (proceed env) (?val key) (cont () (set_property s key (?G key))))
          (\<lambda>_ res. K res) []"
    by (simp add: mapObjectValuesC_def Let_def parseFileOrUrlArray_foldr)
  also have "\<dots> = foldr (\<lambda>key. foldr (proceed env) (?val key)) (Object_keys obj)
      (K (fold (\<lambda>key res. set_property res key (?G key)) (Object_keys obj) []))"
    using mapArrayC_threaded [of "Object_keys obj" "\<lambda>key. foldr (proceed env) (?val key)"
            "\<lambda>_. ()" "\<lambda>key res. set_property res key (?G key)" "\<lambda>_ res. K res" "[]"]
    by simp
  finally show ?thesis by blast
qed

lemma mapObjectValuesC_shape:
  "\<exists>pre. quiet pre \<and>
     (mapObjectValuesC obj (parseFileOrUrlArray env) K = pre \<or>
      (\<exists>res. mapObjectValuesC obj (parseFileOrUrlArray env) K = pre @ K res))"
proof -
  from mapObjectValuesC_sources [of obj env K] obtain res where
    e: "mapObjectValuesC obj (parseFileOrUrlArray env) K
     = foldr (\<lambda>key. foldr (proceed env) (the (get_property obj key))) (Object_keys obj) (K res)"
    by blast
  have "\<exists>pre. quiet pre \<and>
     ((\<forall>r. foldr (\<lambda>key. foldr (proceed env) (the (get_property obj key))) (Object_keys obj) r = pre @ r)
      \<or> (\<forall>r. foldr (\<lambda>key. foldr (proceed env) (the (get_property obj key))) (Object_keys obj) r = pre))"
    by (rule foldr_shape) (rule sources_shape)
  with e show ?thesis by metis
qed
lemma quiet_Cons: "quiet (ev # evs) \<longleftrightarrow> \<not> render_event ev \<and> quiet evs"
  by (simp add: quiet_def)

lemma quiet_Nil: "quiet []"
  by (simp add: quiet_def)

lemma quiet_set: "quiet evs \<longleftrightarrow> (\<forall>ev\<in>set evs. \<not> render_event ev)"
  by (simp add: quiet_def list_all_iff)

lemma dispatch_shape:
  "\<exists>pre. quiet pre \<and>
     (dispatch args options env = pre \<or>
      (\<exists>m. dispatch args options env = pre @ renderAndOutput env options m))"
proof -
  consider (usage) "length args = 0 \<or> help_flag options"
    | (urls) "\<not> (length args = 0 \<or> help_flag options)" "truthy (urls_from options)"
    | (srcs) "\<not> (length args = 0 \<or> help_flag options)" "\<not> truthy (urls_from options)"
    by blast
  then show ?thesis
  proof cases
    case usage
    then have "dispatch args options env = [ConsoleLog (getUsage env)]"
      by (simp add: dispatch_def usage_def)
    moreover have "quiet [ConsoleLog (getUsage env) :: 'a event]"
      by (simp add: quiet_Cons quiet_Nil)
    ultimately show ?thesis by metis
  next
    case urls
    let ?file = "toString (urls_from options)"
    show ?thesis
    proof (cases "readFileSync env ?file")
      case None
      with urls have "dispatch args options env = [ReadFileSync ?file, Uncaught SystemError]"
        by (simp add: dispatch_def)
      moreover have "quiet [ReadFileSync ?file, Uncaught SystemError :: 'a event]"
        by (simp add: quiet_Cons quiet_Nil)
      ultimately show ?thesis by metis
    next
      case (Some contents)
      note contents = this
      show ?thesis
      proof (cases "JSON_parse env contents")
        case None
        with urls contents have "dispatch args options env = [ReadFileSync ?file, Uncaught SyntaxError]"
          by (simp add: dispatch_def)
        moreover have "quiet [ReadFileSync ?file, Uncaught SyntaxError :: 'a event]"
          by (simp add: quiet_Cons quiet_Nil)
        ultimately show ?thesis by metis
      next
        case (Some json)
        note json = this
        show ?thesis
        proof (cases "urlsFromJsonGrammar env json")
          case (Inl result)
          with urls contents json have "dispatch args options env
              = [ReadFileSync ?file, ConsoleError (''Error: '' @ result), Exit 1]"
            by (simp add: dispatch_def)
          moreover have "quiet [ReadFileSync ?file, ConsoleError (''Error: '' @ result), Exit 1 :: 'a event]"
            by (simp add: quiet_Cons quiet_Nil)
          ultimately show ?thesis by metis
        next
          case (Inr result)
          with urls contents json have d: "dispatch args options env
              = ReadFileSync ?file #
                mapObjectValuesC result (parseFileOrUrlArray env) (renderAndOutput env options)"
            by (simp add: dispatch_def)
          from mapObjectValuesC_shape [of result env "renderAndOutput env options"]
          obtain pre where pre: "quiet pre"
            and c: "mapObjectValuesC result (parseFileOrUrlArray env) (renderAndOutput env options) = pre
               \<or> (\<exists>res. mapObjectValuesC result (parseFileOrUrlArray env) (renderAndOutput env options)
                     = pre @ renderAndOutput env options res)"
            by blast
          from pre have q: "quiet (ReadFileSync ?file # pre)"
            by (simp add: quiet_Cons)
          from c d have "dispatch args options env = ReadFileSync ?file # pre
             \<or> (\<exists>res. dispatch args options env
                  = (ReadFileSync ?file # pre) @ renderAndOutput env options res)"
            by auto
          with q show ?thesis by blast
        qed
      qed
    qed
  next
    case srcs
    show ?thesis
    proof (cases "src options")
      case None
      with srcs have "dispatch args options env = [Uncaught TypeError]"
        by (simp add: dispatch_def)
      moreover have "quiet [Uncaught TypeError :: 'a event]"
        by (simp add: quiet_Cons quiet_Nil)
      ultimately show ?thesis by metis
    next
      case (Some xs)
      note xs = this
      show ?thesis
      proof (cases xs)
        case Nil
        with srcs xs have d: "dispatch args options env
            = parseJsonFromStream env Stdin (\<lambda>json. workFromJsonArray env options [json])"
          by (simp add: dispatch_def)
        show ?thesis
        proof (cases "delivered env Stdin")
          case None
          with d have "dispatch args options env = [Consume Stdin, Abandoned Stdin]"
            by (simp add: parseJsonFromStream_def)
          moreover have "quiet [Consume Stdin, Abandoned Stdin :: 'a event]"
            by (simp add: quiet_Cons quiet_Nil)
          ultimately show ?thesis by metis
        next
          case (Some json)
          with d have "dispatch args options env
              = [Consume Stdin] @ renderAndOutput env options
                  (set_property [] (toString (top_level options)) [json])"
            by (simp add: parseJsonFromStream_def workFromJsonArray_def)
          moreover have "quiet [Consume Stdin :: 'a event]"
            by (simp add: quiet_Cons quiet_Nil)
          ultimately show ?thesis by metis
        qed
      next
        case (Cons s rest)
        note Cons1 = this
        show ?thesis
        proof (cases rest)
          case Nil
          with srcs xs Cons1 have d: "dispatch args options env
              = parseFileOrUrlArray env [s] (workFromJsonArray env options)"
            by (simp add: dispatch_def)
          from parseFileOrUrlArray_shape [of env "[s]" "workFromJsonArray env options"]
          obtain pre where "quiet pre"
            and "parseFileOrUrlArray env [s] (workFromJsonArray env options) = pre
                 \<or> (\<exists>js. parseFileOrUrlArray env [s] (workFromJsonArray env options)
                       = pre @ workFromJsonArray env options js)"
            by blast
          with d show ?thesis
            unfolding workFromJsonArray_def Let_def by metis
        next
          case (Cons s2 others)
          with srcs xs Cons1 have "dispatch args options env = [ConsoleLog (getUsage env), Exit 1]"
            by (simp add: dispatch_def usage_def)
          moreover have "quiet [ConsoleLog (getUsage env), Exit 1 :: 'a event]"
            by (simp add: quiet_Cons quiet_Nil)
          ultimately show ?thesis by metis
        qed
      qed
    qed
  qed
qed

lemma main_shape:
  "\<exists>pre. quiet pre \<and>
     (main args options env = pre \<or>
      (\<exists>options' m. main args options env = pre @ renderAndOutput env options' m \<and>
         out options' = out options \<and> src_lang options' = src_lang options \<and>
         (truthy (lang options) \<longrightarrow> lang options' = lang options)))"
proof (cases "set_lang env options")
  case (Inl evs)
  then have "evs = [ConsoleError ''Please specify a language (--lang) or an output file extension.'',
                    Exit 1]"
    by (auto simp: set_lang_def inferLang_def Let_def split: if_splits sum.splits)
  then have "quiet evs"
    by (simp add: quiet_Cons quiet_Nil)
  moreover from Inl have "main args options env = evs"
    by (simp add: main_def)
  ultimately show ?thesis by blast
next
  case (Inr options1)
  note l = this
  note f1 = set_lang_fields [OF l]
  have lang1: "truthy (lang options) \<longrightarrow> lang options1 = lang options"
    using l by (auto simp: set_lang_def)
  show ?thesis
  proof (cases "set_top_level env options1")
    case (Inl evs)
    then have "\<exists>e. evs = [Uncaught e]"
      by (auto simp: set_top_level_def split: if_splits sum.splits)
    then have "quiet evs"
      by (auto simp: quiet_Cons quiet_Nil)
    moreover from l Inl have "main args options env = evs"
      by (simp add: main_def)
    ultimately show ?thesis by blast
  next
    case (Inr options2)
    note f2 = set_top_level_fields [OF Inr]
    from l Inr have m: "main args options env = dispatch args (set_src options2) env"
      by (simp add: main_def)
    from dispatch_shape [of args "set_src options2" env] obtain pre where pre: "quiet pre"
      and c: "dispatch args (set_src options2) env = pre \<or>
        (\<exists>m. dispatch args (set_src options2) env = pre @ renderAndOutput env (set_src options2) m)"
      by blast
    have g: "out (set_src options2) = out options \<and> src_lang (set_src options2) = src_lang options \<and>
         (truthy (lang options) \<longrightarrow> lang (set_src options2) = lang options)"
      using f1 f2 lang1 by (simp add: set_src_fields)
    from c show ?thesis
    proof
      assume "dispatch args (set_src options2) env = pre"
      with m pre show ?thesis by metis
    next
      assume "\<exists>m. dispatch args (set_src options2) env = pre @ renderAndOutput env (set_src options2) m"
      then obtain a where "dispatch args (set_src options2) env = pre @ renderAndOutput env (set_src options2) a"
        by blast
      with m have "main args options env = pre @ renderAndOutput env (set_src options2) a"
        by simp
      with pre g show ?thesis by blast
    qed
  qed
qed
lemma renderAndOutput_cases:
  "renderAndOutput env options m =
     (case lookup_pipeline (src_lang options) of
        None \<Rightarrow> [ConsoleError (''Input language '' @ [CHR 0x27] @ toString (src_lang options)
                    @ [CHR 0x27] @ '' is not supported.''), Exit 1]
      | Some pipeline \<Rightarrow>
          (case getRenderer env options of
             Inl evs \<Rightarrow> evs
           | Inr r \<Rightarrow>
               (case pipeline of
                  Entry p \<Rightarrow>
                    (case engine env p m r of
                       Left payload \<Rightarrow> [Pipeline p m r (Left payload), ConsoleError payload, Exit 1]
                     | Right output \<Rightarrow>
                         [Pipeline p m r (Right output),
                          if truthy (out options)
                          then WriteFileSync (toString (out options)) (Str output)
                          else StdoutWrite (Str output)])
                | Inherited n \<Rightarrow>
                    (if n = ''constructor'' \<or> n = ''toString''
                     then [CallInherited n,
                           if truthy (out options)
                           then WriteFileSync (toString (out options)) Undefined
                           else StdoutWrite Undefined]
                     else [CallInherited n, Uncaught TypeError]))))"
  by (simp add: renderAndOutput_def renderFromJsonArrayMap_def Let_def
        split: option.splits sum.splits either.splits member.splits)

lemma getRenderer_Inl:
  "getRenderer env options = Inl evs \<Longrightarrow>
   evs = [ConsoleError ([CHR 0x27] @ toString (lang options) @ [CHR 0x27]
            @ '' is not yet supported as an output language.''), Exit 1]"
  by (auto simp: getRenderer_def split: option.splits)

lemma getRenderer_unsupported:
  "\<forall>r\<in>set (renderers env). \<not> matches (lang options) r \<Longrightarrow>
   getRenderer env options =
     Inl [ConsoleError ([CHR 0x27] @ toString (lang options) @ [CHR 0x27]
            @ '' is not yet supported as an output language.''), Exit 1]"
  by (simp add: getRenderer_def find_None_iff [THEN iffD2])

lemma renderAndOutput_error_payload:
  assumes "Pipeline p m r (Left payload) \<in> set (renderAndOutput env options m')"
  shows "renderAndOutput env options m' = [Pipeline p m r (Left payload), ConsoleError payload, Exit 1]
         \<and> engine env p m r = Left payload"
  using assms unfolding renderAndOutput_cases
  by (auto split: option.splits sum.splits either.splits member.splits if_splits
        dest: getRenderer_Inl)

lemma renderAndOutput_unsupported:
  assumes "\<forall>r\<in>set (renderers env). \<not> matches (lang options) r"
      and "lookup_pipeline (src_lang options) \<noteq> None"
  shows "renderAndOutput env options m =
     [ConsoleError ([CHR 0x27] @ toString (lang options) @ [CHR 0x27]
        @ '' is not yet supported as an output language.''), Exit 1]"
  using assms(2) unfolding renderAndOutput_cases getRenderer_unsupported [OF assms(1)]
  by (auto split: option.splits)

lemma renderAndOutput_unsupported_quiet:
  assumes "\<forall>r\<in>set (renderers env). \<not> matches (lang options) r"
  shows "quiet (renderAndOutput env options m)"
  unfolding renderAndOutput_cases getRenderer_unsupported [OF assms]
  by (simp add: quiet_Cons quiet_Nil split: option.splits)

lemma not_quiet_mem: "quiet pre \<Longrightarrow> render_event ev \<Longrightarrow> ev \<notin> set pre"
  by (auto simp: quiet_set)

lemma foldr_proceed_delivered:
  "\<forall>f\<in>set fs. source_json env f \<noteq> None \<Longrightarrow>
   foldr (proceed env) fs r = concat (map (source_opening env) fs) @ r"
  by (induction fs) (auto simp: proceed_def)

lemma foldr_groups_delivered:
  "\<forall>f\<in>set (concat (map val keys)). source_json env f \<noteq> None \<Longrightarrow>
   foldr (\<lambda>key. foldr (proceed env) (val key)) keys r
     = concat (map (source_opening env) (concat (map val keys))) @ r"
  by (induction keys) (simp_all add: foldr_proceed_delivered)

lemma mapObjectValuesC_delivered:
  assumes "distinct (Object_keys groups)"
      and "\<forall>f\<in>set (concat (map snd groups)). source_json env f \<noteq> None"
  shows "\<exists>res. mapObjectValuesC groups (parseFileOrUrlArray env) K
           = concat (map (source_opening env) (concat (map snd groups))) @ K res"
proof -
  from assms(1) have d: "distinct (map fst groups)"
    by (simp add: Object_keys_def)
  have v: "map (\<lambda>key. the (get_property groups key)) (Object_keys groups) = map snd groups"
    using own_values [OF d] by (simp add: Object_keys_def)
  from mapObjectValuesC_sources [of groups env K] obtain res where
    e: "mapObjectValuesC groups (parseFileOrUrlArray env) K
     = foldr (\<lambda>key. foldr (proceed env) (the (get_property groups key))) (Object_keys groups) (K res)"
    by blast
  have "foldr (\<lambda>key. foldr (proceed env) (the (get_property groups key))) (Object_keys groups) (K res)
      = concat (map (source_opening env)
          (concat (map (\<lambda>key. the (get_property groups key)) (Object_keys groups)))) @ K res"
    using assms(2) by (intro foldr_groups_delivered) (simp only: v)
  with e v show ?thesis
    by auto
qed

lemma grammar_run:
  assumes "set_lang env options = Inr options1"
      and "set_top_level env options1 = Inr options2"
      and "args \<noteq> []" and "\<not> help_flag options" and "truthy (urls_from options)"
      and "readFileSync env (toString (urls_from options)) = Some contents"
      and "JSON_parse env contents = Some grammar_json"
      and "urlsFromJsonGrammar env grammar_json = Inr groups"
      and "distinct (Object_keys groups)"
      and "\<forall>f\<in>set (concat (map snd groups)). source_json env f \<noteq> None"
  shows "\<exists>res. main args options env
           = ReadFileSync (toString (urls_from options)) #
             concat (map (source_opening env) (concat (map snd groups))) @
             renderAndOutput env (set_src options2) res"
proof -
  note f1 = set_lang_fields [OF assms(1)]
  note f2 = set_top_level_fields [OF assms(2)]
  have "dispatch args (set_src options2) env
      = ReadFileSync (toString (urls_from options)) #
        mapObjectValuesC groups (parseFileOrUrlArray env) (renderAndOutput env (set_src options2))"
    using f1 f2 assms(3-8) by (simp add: dispatch_def set_src_fields)
  moreover from mapObjectValuesC_delivered [OF assms(9,10), of "renderAndOutput env (set_src options2)"]
  obtain res where "mapObjectValuesC groups (parseFileOrUrlArray env) (renderAndOutput env (set_src options2))
      = concat (map (source_opening env) (concat (map snd groups))) @
        renderAndOutput env (set_src options2) res"
    by blast
  ultimately show ?thesis
    using assms(1,2) by (auto simp: main_def)
qed

lemma single_source_run:
  assumes "set_lang env options = Inr options1"
      and "set_top_level env options1 = Inr options2"
      and "args \<noteq> []" and "\<not> help_flag options" and "\<not> truthy (urls_from options)"
      and "src options = Some [s]" and "source_json env s = Some json"
  shows "main args options env
           = source_opening env s @
             renderAndOutput env (set_src options2)
               (set_property [] (toString (top_level options2)) [json])"
proof -
  note f1 = set_lang_fields [OF assms(1)]
  note f2 = set_top_level_fields [OF assms(2)]
  have s: "src (set_src options2) = Some [s]"
    using f1 f2 assms(6) by (simp add: set_src_fields)
  have "dispatch args (set_src options2) env
      = parseFileOrUrlArray env [s] (workFromJsonArray env (set_src options2))"
    using s f1 f2 assms(3-5) by (simp add: dispatch_def set_src_fields)
  also have "\<dots> = source_opening env s @ workFromJsonArray env (set_src options2) [json]"
    using assms(7) by (simp add: parseFileOrUrlArray_def parseFileOrUrl_opening)
  finally show ?thesis
    using assms(1,2) by (simp add: main_def workFromJsonArray_def set_src_fields)
qed

lemma stdin_run:
  assumes "set_lang env options = Inr options1"
      and "set_top_level env options1 = Inr options2"
      and "args \<noteq> []" and "\<not> help_flag options" and "\<not> truthy (urls_from options)"
      and "src options = None \<or> src options = Some []" and "delivered env Stdin = Some json"
  shows "main args options env
           = Consume Stdin #
             renderAndOutput env (set_src options2)
               (set_property [] (toString (top_level options2)) [json])"
proof -
  note f1 = set_lang_fields [OF assms(1)]
  note f2 = set_top_level_fields [OF assms(2)]
  have s: "src (set_src options2) = Some []"
    using f1 f2 assms(6) by (auto simp: set_src_fields)
  have "dispatch args (set_src options2) env
      = parseJsonFromStream env Stdin (\<lambda>json. workFromJsonArray env (set_src options2) [json])"
    using s f1 f2 assms(3-5) by (simp add: dispatch_def set_src_fields)
  also have "\<dots> = Consume Stdin # workFromJsonArray env (set_src options2) [json]"
    using assms(7) by (simp add: parseJsonFromStream_def)
  finally show ?thesis
    using assms(1,2) by (simp add: main_def workFromJsonArray_def set_src_fields)
qed


subsection \<open>Render errors\<close>

text \<open>
  C8. In every run of \<open>main\<close> in which an engine entry point is called and returns
  an error payload, that payload is the outcome of the engine on the aggregate, the
  run ends with the payload written to standard error and an exit with status 1
  right after the call, and the run writes neither an output file nor standard
  output.
\<close>

theorem render_error_payload:
  assumes "Pipeline p m r (Left payload) \<in> set (main args options env)"
  shows "engine env p m r = Left payload
       \<and> (\<exists>pre. quiet pre \<and>
             main args options env
               = pre @ [Pipeline p m r (Left payload), ConsoleError payload, Exit 1])
       \<and> (\<forall>file output. WriteFileSync file output \<notin> set (main args options env))
       \<and> (\<forall>output. StdoutWrite output \<notin> set (main args options env))"
proof -
  from main_shape [of args options env] obtain pre where pre: "quiet pre"
    and c: "main args options env = pre \<or>
      (\<exists>options' a. main args options env = pre @ renderAndOutput env options' a \<and>
         out options' = out options \<and> src_lang options' = src_lang options \<and>
         (truthy (lang options) \<longrightarrow> lang options' = lang options))"
    by blast
  have np: "Pipeline p m r (Left payload) \<notin> set pre"
    using pre by (rule not_quiet_mem) simp
  with assms c obtain options' a
    where e: "main args options env = pre @ renderAndOutput env options' a"
    by auto
  with assms np have "Pipeline p m r (Left payload) \<in> set (renderAndOutput env options' a)"
    by simp
  from renderAndOutput_error_payload [OF this]
  have t: "renderAndOutput env options' a
            = [Pipeline p m r (Left payload), ConsoleError payload, Exit 1]"
    and g: "engine env p m r = Left payload"
    by simp_all
  from e t have whole: "main args options env
      = pre @ [Pipeline p m r (Left payload), ConsoleError payload, Exit 1]"
    by simp
  have "\<And>file output. WriteFileSync file output \<notin> set pre"
    using pre by (rule not_quiet_mem) simp
  then have w: "\<forall>file output. WriteFileSync file output \<notin> set (main args options env)"
    unfolding whole by simp
  have "\<And>output. StdoutWrite output \<notin> set pre"
    using pre by (rule not_quiet_mem) simp
  then have s: "\<forall>output. StdoutWrite output \<notin> set (main args options env)"
    unfolding whole by simp
  from g pre whole w s show ?thesis by blast
qed
lemma schema_run:
  "main [''-s'', ''schema'', ''user.json''] schema_file demo_env
     = [ExistsSync ''user.json'', CreateReadStream ''user.json'', Consume (File ''user.json''),
        Pipeline RenderFromJsonSchemaArrayMap [(''user'', [sample])] golang (Left ''not a schema''),
        ConsoleError ''not a schema'', Exit 1]"
  by (simp add: run_defs demo_defs schema_file_def)

theorem render_error_payload_witness:
  "Pipeline RenderFromJsonSchemaArrayMap [(''user'', [sample])] golang (Left ''not a schema'')
     \<in> set (main [''-s'', ''schema'', ''user.json''] schema_file demo_env)
   \<and> engine demo_env RenderFromJsonSchemaArrayMap [(''user'', [sample])] golang = Left ''not a schema''
   \<and> WriteFileSync ''user.go'' (Str ''// Go'') \<notin> set (main [''-s'', ''schema'', ''user.json''] schema_file demo_env)"
proof -
  have m: "Pipeline RenderFromJsonSchemaArrayMap [(''user'', [sample])] golang (Left ''not a schema'')
     \<in> set (main [''-s'', ''schema'', ''user.json''] schema_file demo_env)"
    by (simp add: schema_run)
  from render_error_payload [OF m] m show ?thesis by blast
qed

subsection \<open>An unsupported target language\<close>

text \<open>
  C4, amended. For every invocation whose target-language flag names a language that
  no renderer of the engine matches, the run never calls the engine and never writes
  output; and the language is only looked up in the render step, after the sources
  have been read. With arguments, no help flag and a source-language selector that
  selects a pipeline: with no grammar file and one positional source that delivers a
  JSON value, the run is the opening of that source followed by the message on
  standard error and the exit with status 1; with no positional source and no
  grammar file, when the
  top-level name is given by the override or inferred from an output destination (or
  the source list is present and empty) and standard input delivers a JSON value, the
  run is the consumption of standard input followed by the message and the exit; with
  a grammar file that expands to groups whose sources all deliver a JSON value, when a
  top-level name is given or can be inferred, the run is the reading of the grammar
  file and the opening of every source of every group, in order, followed by the
  message and the exit.
\<close>

theorem unsupported_language_reported_at_render:
  assumes "truthy (lang options)"
      and "\<forall>r\<in>set (renderers env). \<not> matches (lang options) r"
  shows "quiet (main args options env)
       \<and> (lookup_pipeline (src_lang options) \<noteq> None \<and> args \<noteq> [] \<and> \<not> help_flag options \<and>
          \<not> truthy (urls_from options) \<and> src options = Some [s] \<and> source_json env s = Some json
          \<longrightarrow> main args options env
                = source_opening env s @
                  [ConsoleError ([CHR 0x27] @ toString (lang options) @ [CHR 0x27]
                     @ '' is not yet supported as an output language.''), Exit 1])
       \<and> (lookup_pipeline (src_lang options) \<noteq> None \<and> args \<noteq> [] \<and> \<not> help_flag options \<and>
          \<not> truthy (urls_from options) \<and>
          (src options = Some [] \<or>
           src options = None \<and> (truthy (top_level options) \<or> truthy (out options))) \<and>
          delivered env Stdin = Some json
          \<longrightarrow> main args options env
                = [Consume Stdin,
                   ConsoleError ([CHR 0x27] @ toString (lang options) @ [CHR 0x27]
                     @ '' is not yet supported as an output language.''), Exit 1])
       \<and> (lookup_pipeline (src_lang options) \<noteq> None \<and> args \<noteq> [] \<and> \<not> help_flag options \<and>
          truthy (urls_from options) \<and>
          (truthy (top_level options) \<or> truthy (out options) \<or> src options \<noteq> None) \<and>
          readFileSync env (toString (urls_from options)) = Some contents \<and>
          JSON_parse env contents = Some grammar_json \<and>
          urlsFromJsonGrammar env grammar_json = Inr groups \<and>
          distinct (Object_keys groups) \<and>
          (\<forall>f\<in>set (concat (map snd groups)). source_json env f \<noteq> None)
          \<longrightarrow> main args options env
                = ReadFileSync (toString (urls_from options)) #
                  concat (map (source_opening env) (concat (map snd groups))) @
                  [ConsoleError ([CHR 0x27] @ toString (lang options) @ [CHR 0x27]
                     @ '' is not yet supported as an output language.''), Exit 1])"
proof (intro conjI impI)
  from main_shape [of args options env] obtain pre where pre: "quiet pre"
    and c: "main args options env = pre \<or>
      (\<exists>options' a. main args options env = pre @ renderAndOutput env options' a \<and>
         out options' = out options \<and> src_lang options' = src_lang options \<and>
         (truthy (lang options) \<longrightarrow> lang options' = lang options))"
    by blast
  from c show "quiet (main args options env)"
  proof
    assume "main args options env = pre"
    with pre show ?thesis by simp
  next
    assume "\<exists>options' a. main args options env = pre @ renderAndOutput env options' a \<and>
         out options' = out options \<and> src_lang options' = src_lang options \<and>
         (truthy (lang options) \<longrightarrow> lang options' = lang options)"
    then obtain options' a where e: "main args options env = pre @ renderAndOutput env options' a"
      and l: "lang options' = lang options"
      using assms(1) by blast
    from assms(2) l have "\<forall>r\<in>set (renderers env). \<not> matches (lang options') r"
      by simp
    then have "quiet (renderAndOutput env options' a)"
      by (rule renderAndOutput_unsupported_quiet)
    with pre e show ?thesis
      by (simp add: quiet_append)
  qed
next
  assume a: "lookup_pipeline (src_lang options) \<noteq> None \<and> args \<noteq> [] \<and> \<not> help_flag options \<and>
          \<not> truthy (urls_from options) \<and> src options = Some [s] \<and> source_json env s = Some json"
  have l: "set_lang env options = Inr options"
    using assms(1) by (rule set_lang_given)
  from a have "src options \<noteq> None" by simp
  then obtain options2 where t: "set_top_level env options = Inr options2"
    using set_top_level_succeeds [of options env] by blast
  note f2 = set_top_level_fields [OF t]
  have u: "\<forall>r\<in>set (renderers env). \<not> matches (lang (set_src options2)) r"
    using assms(2) f2 by (simp add: set_src_fields)
  have p: "lookup_pipeline (src_lang (set_src options2)) \<noteq> None"
    using a f2 by (simp add: set_src_fields)
  from single_source_run [OF l t, of args s json] a
  have "main args options env
           = source_opening env s @
             renderAndOutput env (set_src options2)
               (set_property [] (toString (top_level options2)) [json])"
    by simp
  then show "main args options env
                = source_opening env s @
                  [ConsoleError ([CHR 0x27] @ toString (lang options) @ [CHR 0x27]
                     @ '' is not yet supported as an output language.''), Exit 1]"
    using renderAndOutput_unsupported [OF u p] f2 by (simp add: set_src_fields)
next
  assume a: "lookup_pipeline (src_lang options) \<noteq> None \<and> args \<noteq> [] \<and> \<not> help_flag options \<and>
          \<not> truthy (urls_from options) \<and>
          (src options = Some [] \<or>
           src options = None \<and> (truthy (top_level options) \<or> truthy (out options))) \<and>
          delivered env Stdin = Some json"
  have l: "set_lang env options = Inr options"
    using assms(1) by (rule set_lang_given)
  from a have "truthy (top_level options) \<or> truthy (out options) \<or> src options \<noteq> None"
    by auto
  then obtain options2 where t: "set_top_level env options = Inr options2"
    using set_top_level_succeeds [of options env] by blast
  note f2 = set_top_level_fields [OF t]
  have u: "\<forall>r\<in>set (renderers env). \<not> matches (lang (set_src options2)) r"
    using assms(2) f2 by (simp add: set_src_fields)
  have p: "lookup_pipeline (src_lang (set_src options2)) \<noteq> None"
    using a f2 by (simp add: set_src_fields)
  from a have "src options = None \<or> src options = Some []" by auto
  from stdin_run [OF l t _ _ _ this, of args json] a
  have "main args options env
           = Consume Stdin #
             renderAndOutput env (set_src options2)
               (set_property [] (toString (top_level options2)) [json])"
    by simp
  then show "main args options env
                = [Consume Stdin,
                   ConsoleError ([CHR 0x27] @ toString (lang options) @ [CHR 0x27]
                     @ '' is not yet supported as an output language.''), Exit 1]"
    using renderAndOutput_unsupported [OF u p] f2 by (simp add: set_src_fields)
next
  assume a: "lookup_pipeline (src_lang options) \<noteq> None \<and> args \<noteq> [] \<and> \<not> help_flag options \<and>
          truthy (urls_from options) \<and>
          (truthy (top_level options) \<or> truthy (out options) \<or> src options \<noteq> None) \<and>
          readFileSync env (toString (urls_from options)) = Some contents \<and>
          JSON_parse env contents = Some grammar_json \<and>
          urlsFromJsonGrammar env grammar_json = Inr groups \<and>
          distinct (Object_keys groups) \<and>
          (\<forall>f\<in>set (concat (map snd groups)). source_json env f \<noteq> None)"
  have l: "set_lang env options = Inr options"
    using assms(1) by (rule set_lang_given)
  from a obtain options2 where t: "set_top_level env options = Inr options2"
    using set_top_level_succeeds [of options env] by blast
  note f2 = set_top_level_fields [OF t]
  have u: "\<forall>r\<in>set (renderers env). \<not> matches (lang (set_src options2)) r"
    using assms(2) f2 by (simp add: set_src_fields)
  have p: "lookup_pipeline (src_lang (set_src options2)) \<noteq> None"
    using a f2 by (simp add: set_src_fields)
  from a have g: "args \<noteq> []" "\<not> help_flag options" "truthy (urls_from options)"
    "readFileSync env (toString (urls_from options)) = Some contents"
    "JSON_parse env contents = Some grammar_json"
    "urlsFromJsonGrammar env grammar_json = Inr groups"
    "distinct (Object_keys groups)"
    "\<forall>f\<in>set (concat (map snd groups)). source_json env f \<noteq> None"
    by simp_all
  from grammar_run [OF l t g] obtain res where
    "main args options env
       = ReadFileSync (toString (urls_from options)) #
         concat (map (source_opening env) (concat (map snd groups))) @
         renderAndOutput env (set_src options2) res"
    by blast
  then show "main args options env
                = ReadFileSync (toString (urls_from options)) #
                  concat (map (source_opening env) (concat (map snd groups))) @
                  [ConsoleError ([CHR 0x27] @ toString (lang options) @ [CHR 0x27]
                     @ '' is not yet supported as an output language.''), Exit 1]"
    using renderAndOutput_unsupported [OF u p] f2 by (simp add: set_src_fields)
qed

theorem unsupported_language_reported_at_render_witness:
  "truthy (lang fortran_file)
   \<and> find (matches (lang fortran_file)) (renderers demo_env) = None
   \<and> lookup_pipeline (src_lang fortran_file) \<noteq> None
   \<and> src fortran_file = Some [''user.json'']
   \<and> source_json demo_env ''user.json'' = Some sample
   \<and> main [''-l'', ''fortran'', ''user.json''] fortran_file demo_env
       = [ExistsSync ''user.json'', CreateReadStream ''user.json'', Consume (File ''user.json''),
          ConsoleError ([CHR 0x27] @ ''fortran'' @ [CHR 0x27]
            @ '' is not yet supported as an output language.''), Exit 1]
   \<and> truthy (lang fortran_stdin)
   \<and> find (matches (lang fortran_stdin)) (renderers demo_env) = None
   \<and> src fortran_stdin = None \<and> truthy (top_level fortran_stdin)
   \<and> delivered demo_env Stdin = Some sample
   \<and> main [''-l'', ''fortran'', ''-t'', ''User''] fortran_stdin demo_env
       = [Consume Stdin,
          ConsoleError ([CHR 0x27] @ ''fortran'' @ [CHR 0x27]
            @ '' is not yet supported as an output language.''), Exit 1]
   \<and> truthy (lang fortran_grammar)
   \<and> find (matches (lang fortran_grammar)) (renderers demo_env) = None
   \<and> truthy (urls_from fortran_grammar) \<and> truthy (top_level fortran_grammar)
   \<and> urlsFromJsonGrammar demo_env grammar = Inr [(''User'', [''user.json''])]
   \<and> main [''-l'', ''fortran'', ''-t'', ''User'', ''--urls-from'', ''urls.json'']
        fortran_grammar demo_env
       = [ReadFileSync ''urls.json'',
          ExistsSync ''user.json'', CreateReadStream ''user.json'', Consume (File ''user.json''),
          ConsoleError ([CHR 0x27] @ ''fortran'' @ [CHR 0x27]
            @ '' is not yet supported as an output language.''), Exit 1]"
proof -
  have a: "truthy (lang fortran_file)" "truthy (lang fortran_stdin)" "truthy (lang fortran_grammar)"
    by (simp_all add: fortran_file_def fortran_stdin_def fortran_grammar_def no_options_def)
  have b: "\<forall>r\<in>set (renderers demo_env). \<not> matches (lang fortran_file) r"
          "\<forall>r\<in>set (renderers demo_env). \<not> matches (lang fortran_stdin) r"
          "\<forall>r\<in>set (renderers demo_env). \<not> matches (lang fortran_grammar) r"
    using fortran_unsupported
    by (simp_all add: fortran_file_def fortran_stdin_def fortran_grammar_def no_options_def)
  have c: "lookup_pipeline (src_lang fortran_file) \<noteq> None"
          "lookup_pipeline (src_lang fortran_stdin) \<noteq> None"
          "lookup_pipeline (src_lang fortran_grammar) \<noteq> None"
    by (simp_all add: fortran_file_def fortran_stdin_def fortran_grammar_def no_options_def
          lookup_pipeline_def)
  have d: "src fortran_file = Some [''user.json'']" "\<not> help_flag fortran_file"
          "\<not> truthy (urls_from fortran_file)"
          "src fortran_stdin = None" "truthy (top_level fortran_stdin)"
          "\<not> help_flag fortran_stdin" "\<not> truthy (urls_from fortran_stdin)"
    by (simp_all add: fortran_file_def fortran_stdin_def no_options_def)
  have d': "\<not> help_flag fortran_grammar" "truthy (urls_from fortran_grammar)"
          "truthy (top_level fortran_grammar)"
          "toString (urls_from fortran_grammar) = ''urls.json''"
    by (simp_all add: fortran_grammar_def no_options_def)
  have e: "source_json demo_env ''user.json'' = Some sample"
          "delivered demo_env Stdin = Some sample"
    by (simp_all add: source_json_def demo_env_def)
  have e': "readFileSync demo_env ''urls.json'' = Some ''User -> user.json''"
          "JSON_parse demo_env ''User -> user.json'' = Some grammar"
          "urlsFromJsonGrammar demo_env grammar = Inr [(''User'', [''user.json''])]"
          "distinct (Object_keys [(''User'', [''user.json''])])"
          "\<forall>f\<in>set (concat (map snd [(''User'', [''user.json''])])). source_json demo_env f \<noteq> None"
    using e(1) by (simp_all add: demo_env_def Object_keys_def)
  have o: "source_opening demo_env ''user.json''
      = [ExistsSync ''user.json'', CreateReadStream ''user.json'', Consume (File ''user.json'')]"
    by (simp add: source_opening_def demo_env_def)
  have l: "toString (lang fortran_file) = ''fortran''" "toString (lang fortran_stdin) = ''fortran''"
          "toString (lang fortran_grammar) = ''fortran''"
    by (simp_all add: fortran_file_def fortran_stdin_def fortran_grammar_def no_options_def)
  from unsupported_language_reported_at_render
         [OF a(1) b(1), of "[''-l'', ''fortran'', ''user.json'']" "''user.json''" sample]
       c(1) d(1-3) e(1)
  have f: "main [''-l'', ''fortran'', ''user.json''] fortran_file demo_env
       = [ExistsSync ''user.json'', CreateReadStream ''user.json'', Consume (File ''user.json''),
          ConsoleError ([CHR 0x27] @ ''fortran'' @ [CHR 0x27]
            @ '' is not yet supported as an output language.''), Exit 1]"
    by (simp add: o l)
  from unsupported_language_reported_at_render
         [OF a(2) b(2), of "[''-l'', ''fortran'', ''-t'', ''User'']" "''user.json''" sample]
       c(2) d(4-7) e(2)
  have g: "main [''-l'', ''fortran'', ''-t'', ''User''] fortran_stdin demo_env
       = [Consume Stdin,
          ConsoleError ([CHR 0x27] @ ''fortran'' @ [CHR 0x27]
            @ '' is not yet supported as an output language.''), Exit 1]"
    by (simp add: l)
  from unsupported_language_reported_at_render
         [OF a(3) b(3),
          of "[''-l'', ''fortran'', ''-t'', ''User'', ''--urls-from'', ''urls.json'']"
             "''user.json''" sample "''User -> user.json''" grammar "[(''User'', [''user.json''])]"]
       c(3) d' e'
  have h: "main [''-l'', ''fortran'', ''-t'', ''User'', ''--urls-from'', ''urls.json'']
        fortran_grammar demo_env
       = [ReadFileSync ''urls.json'',
          ExistsSync ''user.json'', CreateReadStream ''user.json'', Consume (File ''user.json''),
          ConsoleError ([CHR 0x27] @ ''fortran'' @ [CHR 0x27]
            @ '' is not yet supported as an output language.''), Exit 1]"
    by (simp add: o l)
  from b have b': "find (matches (lang fortran_file)) (renderers demo_env) = None"
    "find (matches (lang fortran_stdin)) (renderers demo_env) = None"
    "find (matches (lang fortran_grammar)) (renderers demo_env) = None"
    by (simp_all add: find_None_iff)
  from a b' c d d' e e'(3) f g h show ?thesis by simp
qed

text \<open>
  As first stated, with the exit before any source resolution, the property fails:
  the file is probed, opened and parsed before the message appears; and with the help
  flag the run prints the usage text and reports nothing.
\<close>

theorem unsupported_language_counterexample:
  "truthy (lang fortran_file)
   \<and> find (matches (lang fortran_file)) (renderers demo_env) = None
   \<and> main [''-l'', ''fortran'', ''user.json''] fortran_file demo_env
       = [ExistsSync ''user.json'', CreateReadStream ''user.json'', Consume (File ''user.json''),
          ConsoleError ([CHR 0x27] @ ''fortran'' @ [CHR 0x27]
            @ '' is not yet supported as an output language.''), Exit 1]
   \<and> truthy (lang fortran_help)
   \<and> find (matches (lang fortran_help)) (renderers demo_env) = None
   \<and> main [''-h'', ''-l'', ''fortran'', ''user.json''] fortran_help demo_env
       = [ConsoleLog (getUsage demo_env)]"
  by (simp add: run_defs demo_defs fortran_file_def fortran_help_def)

subsection \<open>Standard input as the only source\<close>

text \<open>
  With at least one argument, no help flag, no grammar file and no positional source,
  once the target language is determined and when the top-level name is given by the
  override or by an output destination (or the source list is present and empty),
  \<open>main\<close> reads standard input as a single source and, when it delivers a JSON
  value, calls the render step on the aggregate obtained by assigning the
  one-element sequence of that value at the top-level name.
\<close>

lemma main_stdin_named:
  assumes "args \<noteq> []" and "\<not> help_flag options" and "\<not> truthy (urls_from options)"
      and "src options = None \<or> src options = Some []"
      and "truthy (lang options) \<or> \<not> truthy (out options)
           \<or> extname env (toString (out options)) \<noteq> []"
      and "truthy (top_level options) \<or> truthy (out options) \<or> src options = Some []"
      and "delivered env Stdin = Some json"
  shows "\<exists>options'.
           main args options env
             = Consume Stdin #
               renderAndOutput env options'
                 (set_property []
                    (if truthy (top_level options) then toString (top_level options)
                     else if truthy (out options)
                     then replace (basename env (toString (out options)))
                            (extname env (toString (out options))) []
                     else ''TopLevel'')
                    [json])
           \<and> out options' = out options \<and> src_lang options' = src_lang options
           \<and> lang options' =
               (if truthy (lang options) then lang options
                else if truthy (out options)
                then Str (drop 1 (extname env (toString (out options))))
                else Str ''go'')"
proof -
  from set_lang_succeeds [OF assms(5)] obtain options1
    where l: "set_lang env options = Inr options1" by blast
  note f1 = set_lang_fields [OF l]
  from assms(6) f1
  have n: "truthy (top_level options1) \<or> truthy (out options1) \<or> src options1 = Some []"
    by simp
  then have "truthy (top_level options1) \<or> truthy (out options1) \<or> src options1 \<noteq> None"
    by auto
  then obtain options2 where t: "set_top_level env options1 = Inr options2"
    using set_top_level_succeeds [of options1 env] by blast
  note f2 = set_top_level_fields [OF t]
  have name: "toString (top_level options2)
      = (if truthy (top_level options) then toString (top_level options)
         else if truthy (out options)
         then replace (basename env (toString (out options)))
                (extname env (toString (out options))) []
         else ''TopLevel'')"
    using set_top_level_value [OF t n] f1 by simp
  have run: "main args options env
      = Consume Stdin #
        renderAndOutput env (set_src options2)
          (set_property [] (toString (top_level options2)) [json])"
    using stdin_run [OF l t assms(1-4) assms(7)] .
  have fields: "out (set_src options2) = out options"
    "src_lang (set_src options2) = src_lang options"
    using f1 f2 by (simp_all add: set_src_fields)
  have sel: "lang (set_src options2)
      = (if truthy (lang options) then lang options
         else if truthy (out options)
         then Str (drop 1 (extname env (toString (out options))))
         else Str ''go'')"
    using set_lang_value [OF l] f2 by (simp add: set_src_fields)
  show ?thesis
  proof (intro exI [of _ "set_src options2"] conjI)
    show "main args options env
             = Consume Stdin #
               renderAndOutput env (set_src options2)
                 (set_property []
                    (if truthy (top_level options) then toString (top_level options)
                     else if truthy (out options)
                     then replace (basename env (toString (out options)))
                            (extname env (toString (out options))) []
                     else ''TopLevel'')
                    [json])"
      using run name by simp
  qed (fact fields sel)+
qed

lemma main_stdin_named_example:
  "[''-t'', ''User''] \<noteq> [] \<and> \<not> help_flag named_stdin \<and> \<not> truthy (urls_from named_stdin)
   \<and> src named_stdin = None \<and> \<not> truthy (out named_stdin) \<and> truthy (top_level named_stdin)
   \<and> delivered demo_env Stdin = Some sample
   \<and> (\<exists>options'. main [''-t'', ''User''] named_stdin demo_env
         = Consume Stdin # renderAndOutput demo_env options' [(''User'', [sample])]
         \<and> lang options' = Str ''go'')
   \<and> main [''-t'', ''User''] named_stdin demo_env
       = [Consume Stdin,
          Pipeline RenderFromJsonArrayMap [(''User'', [sample])] golang (Right ''// Go for User''),
          StdoutWrite (Str ''// Go for User'')]"
proof -
  have h: "[''-t'', ''User''] \<noteq> []" "\<not> help_flag named_stdin" "\<not> truthy (urls_from named_stdin)"
    "src named_stdin = None" "\<not> truthy (out named_stdin)" "truthy (top_level named_stdin)"
    "delivered demo_env Stdin = Some sample"
    by (simp_all add: named_stdin_def no_options_def demo_env_def)
  have l: "\<not> truthy (lang named_stdin)" "toString (top_level named_stdin) = ''User''"
    by (simp_all add: named_stdin_def no_options_def)
  from main_stdin_named
         [of "[''-t'', ''User'']" named_stdin demo_env sample] h l
  have e: "\<exists>options'. main [''-t'', ''User''] named_stdin demo_env
         = Consume Stdin # renderAndOutput demo_env options' [(''User'', [sample])]
         \<and> lang options' = Str ''go''"
    by (auto simp: set_property_def)
  have r: "main [''-t'', ''User''] named_stdin demo_env
       = [Consume Stdin,
          Pipeline RenderFromJsonArrayMap [(''User'', [sample])] golang (Right ''// Go for User''),
          StdoutWrite (Str ''// Go for User'')]"
    by (simp add: run_defs demo_defs named_stdin_def)
  from h e r show ?thesis by blast
qed



text \<open>
  C7. With no positional source, no output destination and no top-level override,
  the run should read standard input and render it under the fallback name
  \<^verbatim>\<open>TopLevel\<close>. It does not: \<open>main\<close> calls \<open>inferTopLevel\<close> before it replaces the
  absent source list by the empty one, \<^verbatim>\<open>options.src.length\<close> throws a \<^verbatim>\<open>TypeError\<close>,
  and the process ends before standard input is read.
\<close>

theorem main_stdin_fallback_name_throws:
  "[''--lang'', ''go''] \<noteq> [] \<and> \<not> help_flag (no_options\<lparr>lang := Str ''go''\<rparr>)
   \<and> \<not> truthy (urls_from (no_options\<lparr>lang := Str ''go''\<rparr>))
   \<and> src (no_options\<lparr>lang := Str ''go''\<rparr>) = None
   \<and> delivered demo_env Stdin = Some sample
   \<and> main [''--lang'', ''go''] (no_options\<lparr>lang := Str ''go''\<rparr>) demo_env = [Uncaught TypeError]
   \<and> Consume Stdin \<notin> set (main [''--lang'', ''go''] (no_options\<lparr>lang := Str ''go''\<rparr>) demo_env)"
proof -
  have "main [''--lang'', ''go''] (no_options\<lparr>lang := Str ''go''\<rparr>) demo_env = [Uncaught TypeError]"
    using main_no_source_no_name [of "no_options\<lparr>lang := Str ''go''\<rparr>" "[''--lang'', ''go'']" demo_env]
    by (simp add: no_options_def)
  then show ?thesis
    by (simp add: no_options_def demo_env_def)
qed

end
